theory Spec2Isabelle
  imports Main "HOL-Library.Sublist"
begin

section \<open>JavaScript values used by \<open>src/app/page.tsx\<close>\<close>

text \<open>
  The page is TypeScript running on the JavaScript built-ins \<open>String\<close>, \<open>parseInt\<close>
  and \<open>Date\<close>. The built-ins are modelled after ECMA-262 (sections 7.1.6, 19.2.5, 21.4.1
  and 22.1.3), with two idealisations that are stated here once:
  \<^item> a number is \<open>NaN\<close> or a mathematical integer (every number the modelled functions
    produce from integers is an integer, and the \<open>Date\<close> range lies far inside the range
    where doubles are exact);
  \<^item> a string is a list of 8-bit code units, the Latin-1 range of the UTF-16 code units
    of a JavaScript string; white space and letter case are those of that range.
  The time zone of the host is a parameter of every function that reads or writes the
  local fields of a \<open>Date\<close>.
\<close>

datatype jsnum = NaN | Num int

text \<open>\<open>a + b\<close>, \<open>a - b\<close> and \<open>a % b\<close> on numbers; \<open>%\<close> takes the sign of the dividend.\<close>

fun num_add :: "jsnum \<Rightarrow> jsnum \<Rightarrow> jsnum" where
  "num_add (Num a) (Num b) = Num (a + b)"
| "num_add _ _ = NaN"

fun num_sub :: "jsnum \<Rightarrow> jsnum \<Rightarrow> jsnum" where
  "num_sub (Num a) (Num b) = Num (a - b)"
| "num_sub _ _ = NaN"

fun num_rem :: "jsnum \<Rightarrow> jsnum \<Rightarrow> jsnum" where
  "num_rem (Num a) (Num b) =
     (if b = 0 then NaN else Num (sgn a * (\<bar>a\<bar> mod \<bar>b\<bar>)))"
| "num_rem _ _ = NaN"

text \<open>
  \<open>x || dflt\<close> where \<open>x\<close> is a destructured array element: \<open>undefined\<close> (\<open>None\<close>),
  \<open>NaN\<close> and \<open>0\<close> are falsy.
\<close>

fun num_or :: "jsnum option \<Rightarrow> jsnum \<Rightarrow> jsnum" where
  "num_or None dflt = dflt"
| "num_or (Some NaN) dflt = dflt"
| "num_or (Some (Num n)) dflt = (if n = 0 then dflt else Num n)"

text \<open>\<open>ToNumber\<close> of an array element: \<open>undefined\<close> becomes \<open>NaN\<close>.\<close>

fun toNumber :: "jsnum option \<Rightarrow> jsnum" where
  "toNumber None = NaN"
| "toNumber (Some n) = n"

text \<open>\<open>arr[i]\<close>: \<open>undefined\<close> past the end.\<close>

fun nth_opt :: "'a list \<Rightarrow> nat \<Rightarrow> 'a option" where
  "nth_opt [] _ = None"
| "nth_opt (x # xs) 0 = Some x"
| "nth_opt (x # xs) (Suc n) = nth_opt xs n"

subsection \<open>Strings\<close>

definition isDigit :: "char \<Rightarrow> bool" where
  "isDigit c = (48 \<le> (of_char c :: nat) \<and> (of_char c :: nat) \<le> 57)"

definition digitVal :: "char \<Rightarrow> int" where
  "digitVal c = int (of_char c) - 48"

definition digitChar :: "nat \<Rightarrow> char" where
  "digitChar d = char_of (48 + d)"

text \<open>
  White space as \<open>trim\<close> and \<open>parseInt\<close> strip it: TAB, LF, VT, FF, CR, SP and, in the
  Latin-1 range, the no-break space U+00A0.
\<close>

definition isWhiteSpace :: "char \<Rightarrow> bool" where
  "isWhiteSpace c =
     ((of_char c :: nat) = 32 \<or> (9 \<le> (of_char c :: nat) \<and> (of_char c :: nat) \<le> 13)
      \<or> (of_char c :: nat) = 160)"

text \<open>\<open>s.split(sep)\<close> for a one-character separator. The result is never empty.\<close>

fun splitStr :: "char \<Rightarrow> string \<Rightarrow> string list" where
  "splitStr sep [] = [[]]"
| "splitStr sep (c # cs) =
     (if c = sep then [] # splitStr sep cs
      else (case splitStr sep cs of
              [] \<Rightarrow> [[c]]
            | r # rs \<Rightarrow> (c # r) # rs))"

text \<open>\<open>xs.join(sep)\<close>.\<close>

fun join :: "string \<Rightarrow> string list \<Rightarrow> string" where
  "join sep [] = []"
| "join sep [x] = x"
| "join sep (x # y # ys) = x @ sep @ join sep (y # ys)"

text \<open>
  \<open>parseInt(s, 10)\<close>: skip leading white space, read an optional sign, then the longest
  run of decimal digits; \<open>NaN\<close> when there is no digit.
\<close>

definition digitsVal :: "string \<Rightarrow> int" where
  "digitsVal ds = foldl (\<lambda>a c. 10 * a + digitVal c) 0 ds"

definition parseInt10 :: "string \<Rightarrow> jsnum" where
  "parseInt10 s =
     (let S = dropWhile isWhiteSpace s;
          neg = (case S of [] \<Rightarrow> False | c # _ \<Rightarrow> c = CHR ''-'');
          S' = (case S of [] \<Rightarrow> []
                | c # r \<Rightarrow> if c = CHR ''-'' \<or> c = CHR ''+'' then r else S);
          Z = takeWhile isDigit S'
      in if Z = [] then NaN
         else Num ((if neg then - 1 else 1) * digitsVal Z))"

text \<open>\<open>String(n)\<close> for a number: decimal digits, a leading minus sign, or \<open>NaN\<close>.\<close>

function natToStr :: "nat \<Rightarrow> string" where
  "natToStr n = (if n < 10 then [digitChar n] else natToStr (n div 10) @ [digitChar (n mod 10)])"
  by pat_completeness auto
termination
  by (relation "measure (\<lambda>n. n)") auto

declare natToStr.simps [simp del]

fun numToString :: "jsnum \<Rightarrow> string" where
  "numToString NaN = ''NaN''"
| "numToString (Num i) = (if i < 0 then CHR ''-'' # natToStr (nat (- i)) else natToStr (nat i))"

text \<open>\<open>s.padStart(n, "0")\<close>.\<close>

definition padStart0 :: "nat \<Rightarrow> string \<Rightarrow> string" where
  "padStart0 n s = replicate (n - length s) CHR ''0'' @ s"

text \<open>\<open>s.trim()\<close>, \<open>s.toLowerCase()\<close> and \<open>hay.includes(q)\<close>.\<close>

definition trim :: "string \<Rightarrow> string" where
  "trim s = rev (dropWhile isWhiteSpace (rev (dropWhile isWhiteSpace s)))"

text \<open>
  \<open>toLowerCase\<close> on one code unit: A to Z, and the Latin-1 capitals U+00C0 to U+00DE
  without the multiplication sign U+00D7, move up by 32.
\<close>

definition lowerChar :: "char \<Rightarrow> char" where
  "lowerChar c =
     (let n = (of_char c :: nat)
      in if (65 \<le> n \<and> n \<le> 90) \<or> (192 \<le> n \<and> n \<le> 222 \<and> n \<noteq> 215)
         then char_of (n + 32) else c)"

definition toLowerCase :: "string \<Rightarrow> string" where
  "toLowerCase s = map lowerChar s"

fun startsWith :: "string \<Rightarrow> string \<Rightarrow> bool" where
  "startsWith _ [] = True"
| "startsWith [] (q # qs) = False"
| "startsWith (c # cs) (q # qs) = (c = q \<and> startsWith cs qs)"

fun includesStr :: "string \<Rightarrow> string \<Rightarrow> bool" where
  "includesStr [] q = (q = [])"
| "includesStr (c # cs) q = (startsWith (c # cs) q \<or> includesStr cs q)"

subsection \<open>Dates (ECMA-262, 21.4.1)\<close>

definition msPerDay :: int where "msPerDay = 86400000"
definition msPerHour :: int where "msPerHour = 3600000"
definition msPerMinute :: int where "msPerMinute = 60000"
definition msPerSecond :: int where "msPerSecond = 1000"

definition Day :: "int \<Rightarrow> int" where
  "Day t = t div msPerDay"

definition TimeWithinDay :: "int \<Rightarrow> int" where
  "TimeWithinDay t = t mod msPerDay"

definition DaysInYear :: "int \<Rightarrow> int" where
  "DaysInYear y =
     (if y mod 4 \<noteq> 0 then 365
      else if y mod 100 \<noteq> 0 then 366
      else if y mod 400 \<noteq> 0 then 365
      else 366)"

definition DayFromYear :: "int \<Rightarrow> int" where
  "DayFromYear y =
     365 * (y - 1970) + (y - 1969) div 4 - (y - 1901) div 100 + (y - 1601) div 400"

text \<open>
  The standard defines \<open>YearFromTime t\<close> as the largest \<open>y\<close> whose year starts at or before
  \<open>t\<close>. \<open>YearFromDay\<close> computes it from an estimate that is off by at most one; lemmas
  \<open>YearFromDay_spec\<close> and \<open>YearFromDay_unique\<close> below show that it is that year.
\<close>

definition YearFromDay :: "int \<Rightarrow> int" where
  "YearFromDay d =
     (let e = 1970 + (400 * d) div 146097
      in if DayFromYear (e + 1) \<le> d then e + 1
         else if DayFromYear e \<le> d then e
         else e - 1)"

definition YearFromTime :: "int \<Rightarrow> int" where
  "YearFromTime t = YearFromDay (Day t)"

definition InLeapYear :: "int \<Rightarrow> int" where
  "InLeapYear t = (if DaysInYear (YearFromTime t) = 366 then 1 else 0)"

definition DayWithinYear :: "int \<Rightarrow> int" where
  "DayWithinYear t = Day t - DayFromYear (YearFromTime t)"

definition MonthFromTime :: "int \<Rightarrow> int" where
  "MonthFromTime t =
     (let d = DayWithinYear t; l = InLeapYear t
      in if d < 31 then 0
         else if d < 59 + l then 1
         else if d < 90 + l then 2
         else if d < 120 + l then 3
         else if d < 151 + l then 4
         else if d < 181 + l then 5
         else if d < 212 + l then 6
         else if d < 243 + l then 7
         else if d < 273 + l then 8
         else if d < 304 + l then 9
         else if d < 334 + l then 10
         else 11)"

text \<open>The day within the year on which month \<open>m\<close> (0 to 11) starts.\<close>

definition monthStart :: "int \<Rightarrow> int \<Rightarrow> int" where
  "monthStart m l =
     (if m = 0 then 0
      else if m = 1 then 31
      else if m = 2 then 59 + l
      else if m = 3 then 90 + l
      else if m = 4 then 120 + l
      else if m = 5 then 151 + l
      else if m = 6 then 181 + l
      else if m = 7 then 212 + l
      else if m = 8 then 243 + l
      else if m = 9 then 273 + l
      else if m = 10 then 304 + l
      else 334 + l)"

definition DateFromTime :: "int \<Rightarrow> int" where
  "DateFromTime t = DayWithinYear t - monthStart (MonthFromTime t) (InLeapYear t) + 1"

definition WeekDay :: "int \<Rightarrow> int" where
  "WeekDay t = (Day t + 4) mod 7"

text \<open>
  The host's time zone. \<open>LocalTZA(t, isUTC)\<close> of the standard is the offset of local time
  from UTC in milliseconds: \<open>utcOffset z t\<close> is the offset in force at the instant \<open>t\<close>,
  \<open>localOffset z lt\<close> the offset with which the local time \<open>lt\<close> is read. The standard fixes
  the second where a transition skips or repeats local times: the offset before the
  transition. The sample zones below follow that rule.
\<close>

record Zone =
  utcOffset :: "int \<Rightarrow> int"
  localOffset :: "int \<Rightarrow> int"

definition LocalTZA :: "Zone \<Rightarrow> int \<Rightarrow> bool \<Rightarrow> int" where
  "LocalTZA z t isUTC = (if isUTC then utcOffset z t else localOffset z t)"

definition LocalTime :: "Zone \<Rightarrow> int \<Rightarrow> int" where
  "LocalTime z t = t + LocalTZA z t True"

definition UTC :: "Zone \<Rightarrow> int \<Rightarrow> int" where
  "UTC z t = t - LocalTZA z t False"

definition MakeTime :: "int \<Rightarrow> int \<Rightarrow> int \<Rightarrow> int \<Rightarrow> int" where
  "MakeTime hour minute sec ms = hour * msPerHour + minute * msPerMinute + sec * msPerSecond + ms"

definition MakeDay :: "int \<Rightarrow> int \<Rightarrow> int \<Rightarrow> int" where
  "MakeDay year month date =
     (let ym = year + month div 12;
          mn = month mod 12
      in DayFromYear ym + monthStart mn (if DaysInYear ym = 366 then 1 else 0) + date - 1)"

definition MakeDate :: "int \<Rightarrow> int \<Rightarrow> int" where
  "MakeDate day time = day * msPerDay + time"

definition TimeClip :: "int \<Rightarrow> jsnum" where
  "TimeClip t = (if \<bar>t\<bar> > 8640000000000000 then NaN else Num t)"

definition MakeFullYear :: "int \<Rightarrow> int" where
  "MakeFullYear y = (if 0 \<le> y \<and> y \<le> 99 then 1900 + y else y)"

text \<open>A \<open>Date\<close> object holds a time value; \<open>NaN\<close> is the Invalid Date.\<close>

datatype Date = DateOf (timeValue: jsnum)

text \<open>\<open>new Date(year, month, date, hours, minutes, seconds, ms)\<close>.\<close>

fun newDate ::
  "Zone \<Rightarrow> jsnum \<Rightarrow> jsnum \<Rightarrow> jsnum \<Rightarrow> jsnum \<Rightarrow> jsnum \<Rightarrow> jsnum \<Rightarrow> jsnum \<Rightarrow> Date" where
  "newDate z (Num y) (Num m) (Num dt) (Num h) (Num mi) (Num s) (Num ms) =
     DateOf (TimeClip (UTC z (MakeDate (MakeDay (MakeFullYear y) m dt) (MakeTime h mi s ms))))"
| "newDate z _ _ _ _ _ _ _ = DateOf NaN"

text \<open>\<open>new Date(d)\<close> for a \<open>Date\<close> \<open>d\<close>: a copy with the same time value.\<close>

fun copyDate :: "Date \<Rightarrow> Date" where
  "copyDate (DateOf NaN) = DateOf NaN"
| "copyDate (DateOf (Num t)) = DateOf (TimeClip t)"

fun getFullYear :: "Zone \<Rightarrow> Date \<Rightarrow> jsnum" where
  "getFullYear z (DateOf NaN) = NaN"
| "getFullYear z (DateOf (Num t)) = Num (YearFromTime (LocalTime z t))"

fun getMonth :: "Zone \<Rightarrow> Date \<Rightarrow> jsnum" where
  "getMonth z (DateOf NaN) = NaN"
| "getMonth z (DateOf (Num t)) = Num (MonthFromTime (LocalTime z t))"

fun getDate :: "Zone \<Rightarrow> Date \<Rightarrow> jsnum" where
  "getDate z (DateOf NaN) = NaN"
| "getDate z (DateOf (Num t)) = Num (DateFromTime (LocalTime z t))"

fun getDay :: "Zone \<Rightarrow> Date \<Rightarrow> jsnum" where
  "getDay z (DateOf NaN) = NaN"
| "getDay z (DateOf (Num t)) = Num (WeekDay (LocalTime z t))"

text \<open>
  The setters mutate the object in the source; here they return the updated object.
  On an Invalid Date \<open>setDate\<close>, \<open>setMonth\<close> and \<open>setHours\<close> leave it invalid.
\<close>

fun setDate :: "Zone \<Rightarrow> Date \<Rightarrow> jsnum \<Rightarrow> Date" where
  "setDate z (DateOf NaN) _ = DateOf NaN"
| "setDate z (DateOf (Num t)) NaN = DateOf NaN"
| "setDate z (DateOf (Num t)) (Num dt) =
     (let t' = LocalTime z t
      in DateOf (TimeClip (UTC z (MakeDate (MakeDay (YearFromTime t') (MonthFromTime t') dt)
                                           (TimeWithinDay t')))))"

fun setMonth :: "Zone \<Rightarrow> Date \<Rightarrow> jsnum \<Rightarrow> Date" where
  "setMonth z (DateOf NaN) _ = DateOf NaN"
| "setMonth z (DateOf (Num t)) NaN = DateOf NaN"
| "setMonth z (DateOf (Num t)) (Num m) =
     (let t' = LocalTime z t
      in DateOf (TimeClip (UTC z (MakeDate (MakeDay (YearFromTime t') m (DateFromTime t'))
                                           (TimeWithinDay t')))))"

text \<open>\<open>d.setHours(0,0,0,0)\<close>.\<close>

fun setHours0 :: "Zone \<Rightarrow> Date \<Rightarrow> Date" where
  "setHours0 z (DateOf NaN) = DateOf NaN"
| "setHours0 z (DateOf (Num t)) =
     DateOf (TimeClip (UTC z (MakeDate (Day (LocalTime z t)) (MakeTime 0 0 0 0))))"

section \<open>Local date helpers\<close>

text \<open>\<open>parseLocalDateTime\<close>, \<open>dateKeyLocal\<close> and \<open>dateKeyFromLocalString\<close> of the page.\<close>

definition parseLocalDateTime :: "Zone \<Rightarrow> string \<Rightarrow> Date" where
  "parseLocalDateTime z str =
     (if str = [] then DateOf NaN
      else
        let parts = splitStr CHR ''T'' str;
            ymd = (case parts of [] \<Rightarrow> [] | p # _ \<Rightarrow> p);
            hm = (case nth_opt parts 1 of None \<Rightarrow> ''00:00'' | Some h \<Rightarrow> h);
            ns = map parseInt10 (splitStr CHR ''-'' ymd);
            y = nth_opt ns 0; m = nth_opt ns 1; d = nth_opt ns 2;
            ts = map parseInt10 (splitStr CHR '':'' hm);
            hh = nth_opt ts 0; mm = nth_opt ts 1
        in newDate z (toNumber y) (num_sub (num_or m (Num 1)) (Num 1)) (num_or d (Num 1))
                     (num_or hh (Num 0)) (num_or mm (Num 0)) (Num 0) (Num 0))"

definition dateKeyLocal :: "Zone \<Rightarrow> Date \<Rightarrow> string" where
  "dateKeyLocal z d =
     (let y = getFullYear z d;
          m = padStart0 2 (numToString (num_add (getMonth z d) (Num 1)));
          day = padStart0 2 (numToString (getDate z d))
      in numToString y @ ''-'' @ m @ ''-'' @ day)"

definition dateKeyFromLocalString :: "Zone \<Rightarrow> string \<Rightarrow> string" where
  "dateKeyFromLocalString z str = dateKeyLocal z (parseLocalDateTime z str)"

section \<open>Status severity\<close>

text \<open>
  \<open>Status\<close> is a union of four string literals in the source; at run time any string can
  arrive (imported JSON), and the \<open>switch\<close> has a \<open>default\<close> branch for it.
\<close>

definition statusToSeverity :: "string \<Rightarrow> int" where
  "statusToSeverity s =
     (if s = ''Approvato'' then 1
      else if s = ''In revisione'' then 2
      else if s = ''Da correggere'' then 3
      else 0)"

section \<open>Posts, filters and item updates\<close>

datatype Platform = Instagram | Facebook | X | LinkedIn | TikTok

definition PLATFORMS :: "Platform list" where
  "PLATFORMS = [Instagram, Facebook, X, LinkedIn, TikTok]"

record PlatformEntry =
  enabled :: bool
  caption :: string

text \<open>
  \<open>PostItem\<close>. Optional fields are options (\<open>None\<close> is \<open>undefined\<close>). The field \<open>id\<close> is
  \<open>itemId\<close> here, \<open>id\<close> being the identity function of HOL.
\<close>

record PostItem =
  itemId :: string
  createdAt :: int
  imageUrl :: "string option"
  imageName :: "string option"
  platforms :: "Platform \<Rightarrow> PlatformEntry"
  scheduledAt :: "string option"
  owner :: "string option"
  "notes" :: "string option"
  status :: string
  tags :: "string list"

text \<open>\<open>platformFilter\<close> is a platform or the literal \<open>Tutte\<close>.\<close>

datatype PlatformFilter = Tutte | Only Platform

text \<open>\<open>x || ""\<close> on an optional string, and the truthiness of an optional string.\<close>

fun orEmpty :: "string option \<Rightarrow> string" where
  "orEmpty None = []"
| "orEmpty (Some s) = s"

fun truthy :: "string option \<Rightarrow> bool" where
  "truthy None = False"
| "truthy (Some s) = (s \<noteq> [])"

text \<open>The text a query is searched in (before lower-casing), the same in both views.\<close>

definition hay :: "PostItem \<Rightarrow> string" where
  "hay it =
     join '' ''
       ([orEmpty (imageName it), orEmpty (owner it), orEmpty (notes it)]
        @ map (\<lambda>p. caption (platforms it p)) PLATFORMS
        @ [join '' '' (tags it), status it])"

text \<open>
  The callback of \<open>items.filter\<close> in \<open>filtered\<close> (the board), one \<open>if\<close> per line of the
  source, and \<open>filtered\<close> itself. The host's zone \<open>z\<close> is read by \<open>dateKeyFromLocalString\<close>.
\<close>

definition filteredKeeps ::
  "Zone \<Rightarrow> string \<Rightarrow> PlatformFilter \<Rightarrow> bool \<Rightarrow> string option \<Rightarrow> string \<Rightarrow> PostItem
     \<Rightarrow> bool" where
  "filteredKeeps z statusFilter platformFilter onlyScheduled selectedDate query it =
     (if statusFilter \<noteq> ''Tutti'' \<and> status it \<noteq> statusFilter then False
      else if (case platformFilter of Tutte \<Rightarrow> False
               | Only p \<Rightarrow> \<not> enabled (platforms it p)) then False
      else if onlyScheduled \<and> \<not> truthy (scheduledAt it) then False
      else if truthy selectedDate \<and>
              (\<not> truthy (scheduledAt it) \<or>
               dateKeyFromLocalString z (orEmpty (scheduledAt it)) \<noteq> orEmpty selectedDate)
           then False
      else let q = toLowerCase (trim query)
           in if q = [] then True
              else includesStr (toLowerCase (hay it)) q)"

definition filtered ::
  "Zone \<Rightarrow> PostItem list \<Rightarrow> string \<Rightarrow> PlatformFilter \<Rightarrow> bool \<Rightarrow> string option \<Rightarrow> string
     \<Rightarrow> PostItem list" where
  "filtered z items statusFilter platformFilter onlyScheduled selectedDate query =
     filter (filteredKeeps z statusFilter platformFilter onlyScheduled selectedDate query) items"

text \<open>The callback of \<open>items.filter\<close> in \<open>calendarItems\<close>, and \<open>calendarItems\<close> itself.\<close>

definition calendarKeeps ::
  "string \<Rightarrow> PlatformFilter \<Rightarrow> bool \<Rightarrow> string \<Rightarrow> PostItem \<Rightarrow> bool" where
  "calendarKeeps statusFilter platformFilter onlyScheduled query it =
     ((statusFilter = ''Tutti'' \<or> status it = statusFilter)
      \<and> (case platformFilter of Tutte \<Rightarrow> True | Only p \<Rightarrow> enabled (platforms it p))
      \<and> (\<not> onlyScheduled \<or> truthy (scheduledAt it))
      \<and> (if query \<noteq> [] then includesStr (toLowerCase (hay it)) (toLowerCase query)
           else True))"

definition calendarItems ::
  "PostItem list \<Rightarrow> string \<Rightarrow> PlatformFilter \<Rightarrow> bool \<Rightarrow> string \<Rightarrow> PostItem list" where
  "calendarItems items statusFilter platformFilter onlyScheduled query =
     filter (calendarKeeps statusFilter platformFilter onlyScheduled query) items"

text \<open>
  \<open>Partial<PostItem>\<close>: each key is absent (\<open>None\<close>) or carries a value of the field's
  type. \<open>{ ...it, ...patch }\<close> takes every key of the patch and the rest from \<open>it\<close>.
\<close>

record PostPatch =
  patch_id :: "string option"
  patch_createdAt :: "int option"
  patch_imageUrl :: "string option option"
  patch_imageName :: "string option option"
  patch_platforms :: "(Platform \<Rightarrow> PlatformEntry) option"
  patch_scheduledAt :: "string option option"
  patch_owner :: "string option option"
  patch_notes :: "string option option"
  patch_status :: "string option"
  patch_tags :: "string list option"

fun orKeep :: "'a option \<Rightarrow> 'a \<Rightarrow> 'a" where
  "orKeep None old = old"
| "orKeep (Some v) old = v"

definition spread :: "PostItem \<Rightarrow> PostPatch \<Rightarrow> PostItem" where
  "spread it patch =
     \<lparr> itemId = orKeep (patch_id patch) (itemId it),
       createdAt = orKeep (patch_createdAt patch) (createdAt it),
       imageUrl = orKeep (patch_imageUrl patch) (imageUrl it),
       imageName = orKeep (patch_imageName patch) (imageName it),
       platforms = orKeep (patch_platforms patch) (platforms it),
       scheduledAt = orKeep (patch_scheduledAt patch) (scheduledAt it),
       owner = orKeep (patch_owner patch) (owner it),
       notes = orKeep (patch_notes patch) (notes it),
       status = orKeep (patch_status patch) (status it),
       tags = orKeep (patch_tags patch) (tags it) \<rparr>"

text \<open>\<open>updateItem\<close> and \<open>removeItem\<close>, as functions from the previous collection to the next.\<close>

definition updateItem :: "string \<Rightarrow> PostPatch \<Rightarrow> PostItem list \<Rightarrow> PostItem list" where
  "updateItem i patch prev = map (\<lambda>it. if itemId it = i then spread it patch else it) prev"

definition removeItem :: "string \<Rightarrow> PostItem list \<Rightarrow> PostItem list" where
  "removeItem i prev = filter (\<lambda>it. itemId it \<noteq> i) prev"

section \<open>The calendar view\<close>

text \<open>
  \<open>postsByDay\<close>: the object \<open>map\<close> is a finite map from day keys to buckets. Every key is a
  result of \<open>dateKeyLocal\<close> and contains a hyphen, so no key meets a property inherited
  from \<open>Object.prototype\<close>. \<open>addPlatform\<close> is one round of the inner loop over
  \<open>PLATFORMS\<close>, \<open>addPost\<close> one round of the outer loop over the items.
\<close>

record Bucket =
  items :: "PostItem list"
  platformSeverity :: "Platform \<rightharpoonup> int"

definition addPlatform :: "PostItem \<Rightarrow> (Platform \<rightharpoonup> int) \<Rightarrow> Platform \<Rightarrow> (Platform \<rightharpoonup> int)" where
  "addPlatform it sevs p =
     (if \<not> enabled (platforms it p) then sevs
      else let sev = statusToSeverity (status it)
           in sevs(p \<mapsto> max (case sevs p of None \<Rightarrow> 0 | Some v \<Rightarrow> v) sev))"

definition addPost :: "Zone \<Rightarrow> (string \<rightharpoonup> Bucket) \<Rightarrow> PostItem \<Rightarrow> (string \<rightharpoonup> Bucket)" where
  "addPost z m it =
     (if \<not> truthy (scheduledAt it) then m
      else
        let dayKey = dateKeyFromLocalString z (orEmpty (scheduledAt it));
            b0 = (case m dayKey of
                    None \<Rightarrow> \<lparr> items = [], platformSeverity = Map.empty \<rparr>
                  | Some b \<Rightarrow> b);
            b1 = b0 \<lparr> items := items b0 @ [it] \<rparr>;
            b2 = b1 \<lparr> platformSeverity := foldl (addPlatform it) (platformSeverity b1) PLATFORMS \<rparr>
        in m(dayKey \<mapsto> b2))"

definition postsByDay :: "Zone \<Rightarrow> PostItem list \<Rightarrow> (string \<rightharpoonup> Bucket)" where
  "postsByDay z its = foldl (addPost z) Map.empty its"

text \<open>\<open>startOfWeek\<close> and \<open>addMonths\<close>.\<close>

definition startOfWeek :: "Zone \<Rightarrow> Date \<Rightarrow> Date" where
  "startOfWeek z d =
     (let day = num_rem (num_add (getDay z d) (Num 6)) (Num 7);
          out = copyDate d;
          out1 = setDate z out (num_sub (getDate z d) day);
          out2 = setHours0 z out1
      in out2)"

definition addMonths :: "Zone \<Rightarrow> Date \<Rightarrow> jsnum \<Rightarrow> Date" where
  "addMonths z d delta =
     (let out = copyDate d;
          out1 = setMonth z out (num_add (getMonth z d) delta)
      in newDate z (getFullYear z out1) (getMonth z out1) (Num 1) (Num 0) (Num 0) (Num 0) (Num 0))"

text \<open>
  \<open>chunk\<close>: the loop \<open>for (i = 0; i < arr.length; i += size)\<close> does not end when \<open>size\<close>
  (\<open>sz\<close> here) is 0 and \<open>arr\<close> is not empty; not returning is \<open>None\<close>.
\<close>

definition slice :: "'a list \<Rightarrow> nat \<Rightarrow> nat \<Rightarrow> 'a list" where
  "slice arr a b = take (b - a) (drop a arr)"

partial_function (option) chunk_loop ::
  "'a list \<Rightarrow> nat \<Rightarrow> nat \<Rightarrow> 'a list list \<Rightarrow> 'a list list option" where
  "chunk_loop arr sz i res =
     (if i < length arr then chunk_loop arr sz (i + sz) (res @ [slice arr i (i + sz)])
      else Some res)"

declare chunk_loop.simps [code]

definition chunk :: "'a list \<Rightarrow> nat \<Rightarrow> 'a list list option" where
  "chunk arr sz = chunk_loop arr sz 0 []"

text \<open>\<open>weeks\<close>: the 42 days and their rows.\<close>

definition days :: "Zone \<Rightarrow> Date \<Rightarrow> Date list" where
  "days z cursor =
     (let year = getFullYear z cursor;
          month = getMonth z cursor;
          first = newDate z year month (Num 1) (Num 0) (Num 0) (Num 0) (Num 0);
          start = startOfWeek z first
      in map (\<lambda>i. setDate z (copyDate start) (num_add (getDate z start) (Num (int i))))
             [0..<42])"

definition weeks :: "Zone \<Rightarrow> Date \<Rightarrow> Date list list option" where
  "weeks z cursor = chunk (days z cursor) 7"

text \<open>
  The month cursor of the calendar: every value the page gives it is
  \<open>new Date(year, month, 1)\<close>, the year and the month read from a \<open>Date\<close> (the initial
  state, the button for today, and the result of \<open>addMonths\<close>).
\<close>

definition firstOfMonth :: "Zone \<Rightarrow> jsnum \<Rightarrow> jsnum \<Rightarrow> Date" where
  "firstOfMonth z year month = newDate z year month (Num 1) (Num 0) (Num 0) (Num 0) (Num 0)"

section \<open>Vocabulary of the properties\<close>

text \<open>
  The length of month \<open>m\<close> (1 to 12) of year \<open>y\<close> in the Gregorian calendar, and the local
  date-time strings \<open>YYYY-MM-DDThh:mm\<close> that name a calendar date and a time of day.
\<close>

definition daysInMonth :: "int \<Rightarrow> int \<Rightarrow> int" where
  "daysInMonth y m =
     (if m = 2 then (if DaysInYear y = 366 then 29 else 28)
      else if m = 4 \<or> m = 6 \<or> m = 9 \<or> m = 11 then 30
      else 31)"

definition validLocalDateTime :: "string \<Rightarrow> bool" where
  "validLocalDateTime s =
     (length s = 16 \<and>
      list_all (\<lambda>i. isDigit (s ! i)) [0, 1, 2, 3, 5, 6, 8, 9, 11, 12, 14, 15] \<and>
      s ! 4 = CHR ''-'' \<and> s ! 7 = CHR ''-'' \<and> s ! 10 = CHR ''T'' \<and> s ! 13 = CHR '':'' \<and>
      (let y = digitsVal (take 4 s);
           m = digitsVal (take 2 (drop 5 s));
           d = digitsVal (take 2 (drop 8 s));
           hh = digitsVal (take 2 (drop 11 s));
           mm = digitsVal (take 2 (drop 14 s))
       in 1 \<le> y \<and> 1 \<le> m \<and> m \<le> 12 \<and> 1 \<le> d \<and> d \<le> daysInMonth y m \<and>
          hh \<le> 23 \<and> mm \<le> 59))"

text \<open>
  The day number (days since 1970-01-01) of the Monday on or before day number \<open>n\<close>:
  \<open>(weekday + 6) mod 7\<close> days back, weekday 0 being Sunday and day 0 a Thursday.
\<close>

definition mondayOnOrBefore :: "int \<Rightarrow> int" where
  "mondayOnOrBefore n = n - ((n + 4) mod 7 + 6) mod 7"

text \<open>
  The local time (milliseconds, as a local clock counts them from 1970-01-01T00:00) that a
  valid string \<open>YYYY-MM-DDThh:mm\<close> names.
\<close>

definition localMoment :: "string \<Rightarrow> int" where
  "localMoment s =
     MakeDate (MakeDay (digitsVal (take 4 s)) (digitsVal (take 2 (drop 5 s)) - 1)
                       (digitsVal (take 2 (drop 8 s))))
              (MakeTime (digitsVal (take 2 (drop 11 s))) (digitsVal (take 2 (drop 14 s))) 0 0)"

text \<open>
  What the host makes of a local time \<open>lt\<close> that a constructor or setter asks for:
  \<open>readBack z lt\<close> is the local time its getters then report, and \<open>staysOnDay z lt\<close> says that
  the \<open>Date\<close> is valid and that its getters report the calendar day of \<open>lt\<close>. It fails where
  the instant is outside the range of \<open>Date\<close>, and where a zone transition skips \<open>lt\<close> and
  the skipped stretch runs over the end of the day.
\<close>

definition readBack :: "Zone \<Rightarrow> int \<Rightarrow> int" where
  "readBack z lt = LocalTime z (UTC z lt)"

definition staysOnDay :: "Zone \<Rightarrow> int \<Rightarrow> bool" where
  "staysOnDay z lt =
     (case TimeClip (UTC z lt) of
        NaN \<Rightarrow> False
      | Num u \<Rightarrow> Day (LocalTime z u) = Day lt)"

text \<open>
  Sample zones. \<open>zoneUTC\<close> is UTC itself. \<open>transition T a b\<close> has the offset \<open>a\<close> before the
  instant \<open>T\<close> and the offset \<open>b\<close> from \<open>T\<close> on; a local time that the step skips or repeats is
  read with the offset before the step. The others are steps that the tz database
  records. Pacific/Apia went from 10 hours behind UTC to 14 hours ahead at the end of
  29 December 2011 and had no 30 December; Pacific/Kiritimati did so at the end of
  30 December 1994 and had no 31 December. America/Havana advanced its clock from
  midnight to 01:00 on 1 April 2012, and America/Sao_Paulo on 4 November 2018.
  America/Nuuk advanced its clock from 23:00 of 30 March 2024 to midnight.
\<close>

definition zoneUTC :: Zone where
  "zoneUTC = \<lparr> utcOffset = (\<lambda>t. 0), localOffset = (\<lambda>lt. 0) \<rparr>"

definition transition :: "int \<Rightarrow> int \<Rightarrow> int \<Rightarrow> Zone" where
  "transition T a b =
     \<lparr> utcOffset = (\<lambda>t. if t < T then a else b),
       localOffset = (\<lambda>lt. if lt < T + max a b then a else b) \<rparr>"

definition apia2011 :: Zone where
  "apia2011 = transition (MakeDate (MakeDay 2011 11 30) (MakeTime 10 0 0 0))
                         (- 10 * msPerHour) (14 * msPerHour)"

definition kiritimati1994 :: Zone where
  "kiritimati1994 = transition (MakeDate (MakeDay 1994 11 31) (MakeTime 10 0 0 0))
                               (- 10 * msPerHour) (14 * msPerHour)"

definition havana2012 :: Zone where
  "havana2012 = transition (MakeDate (MakeDay 2012 3 1) (MakeTime 5 0 0 0))
                           (- 5 * msPerHour) (- 4 * msPerHour)"

definition saoPaulo2018 :: Zone where
  "saoPaulo2018 = transition (MakeDate (MakeDay 2018 10 4) (MakeTime 3 0 0 0))
                             (- 3 * msPerHour) (- 2 * msPerHour)"

definition nuuk2024 :: Zone where
  "nuuk2024 = transition (MakeDate (MakeDay 2024 2 31) (MakeTime 1 0 0 0))
                         (- 2 * msPerHour) (- 1 * msPerHour)"

text \<open>Cell \<open>i\<close> of the grid, the rows read one after the other.\<close>

definition gridCell :: "Date list list option \<Rightarrow> nat \<Rightarrow> Date option" where
  "gridCell w i =
     (case w of
        None \<Rightarrow> None
      | Some rows \<Rightarrow> nth_opt (concat rows) i)"

text \<open>The day key of a scheduled post, and the posts of a sequence that fall on a day.\<close>

definition keyOf :: "Zone \<Rightarrow> PostItem \<Rightarrow> string" where
  "keyOf z it = dateKeyFromLocalString z (orEmpty (scheduledAt it))"

definition dayPosts :: "Zone \<Rightarrow> string \<Rightarrow> PostItem list \<Rightarrow> PostItem list" where
  "dayPosts z k its = filter (\<lambda>it. truthy (scheduledAt it) \<and> keyOf z it = k) its"

text \<open>
  The largest severity among the posts of \<open>ps\<close> that have platform \<open>p\<close> enabled; \<open>None\<close> when
  no post has.
\<close>

definition maxSeverity :: "Platform \<Rightarrow> PostItem list \<Rightarrow> int option" where
  "maxSeverity p ps =
     (let es = filter (\<lambda>it. enabled (platforms it p)) ps
      in if es = [] then None
         else Some (Max (set (map (\<lambda>it. statusToSeverity (status it)) es))))"

text \<open>
  Sample posts: \<open>postA\<close>, \<open>postB\<close> and \<open>postC\<close> are the posts A, B and C of the end-to-end
  scenarios (Instagram enabled), \<open>postU\<close> is an unscheduled draft.
\<close>

definition onlyInstagram :: "Platform \<Rightarrow> PlatformEntry" where
  "onlyInstagram p = \<lparr> enabled = (p = Instagram), caption = [] \<rparr>"

definition samplePost :: "string \<Rightarrow> string option \<Rightarrow> string \<Rightarrow> PostItem" where
  "samplePost i sched st =
     \<lparr> itemId = i, createdAt = 0, imageUrl = None, imageName = None,
       platforms = onlyInstagram, scheduledAt = sched, owner = None, notes = None,
       status = st, tags = [] \<rparr>"

definition postA :: PostItem where
  "postA = samplePost ''A'' (Some ''2025-10-29T09:00'') ''Approvato''"

definition postB :: PostItem where
  "postB = samplePost ''B'' (Some ''2025-10-29T18:00'') ''Da correggere''"

definition postC :: PostItem where
  "postC = samplePost ''C'' (Some ''2025-10-30T10:00'') ''Bozza''"

definition postU :: PostItem where
  "postU = samplePost ''U'' None ''Bozza''"

text \<open>The patch \<open>{ status: st }\<close> that the action buttons of a card send.\<close>

definition statusPatch :: "string \<Rightarrow> PostPatch" where
  "statusPatch st =
     \<lparr> patch_id = None, patch_createdAt = None, patch_imageUrl = None,
       patch_imageName = None, patch_platforms = None, patch_scheduledAt = None,
       patch_owner = None, patch_notes = None, patch_status = Some st, patch_tags = None \<rparr>"

section \<open>Calendar arithmetic\<close>

lemma div_step:
  fixes x n :: int
  assumes "0 < n"
  shows "(x + 1) div n = x div n + (if (x + 1) mod n = 0 then 1 else 0)"
proof -
  have a: "x = n * (x div n) + x mod n" by simp
  have b: "0 \<le> x mod n" "x mod n < n" using assms by simp_all
  show ?thesis
  proof (cases "x mod n = n - 1")
    case True
    then have "x + 1 = n * (x div n) + n" using a by linarith
    then have e: "x + 1 = n * (x div n + 1) + 0" by (simp add: algebra_simps)
    have "(x + 1) div n = x div n + 1"
      by (rule int_div_pos_eq[OF e]) (use assms in simp_all)
    moreover have "(x + 1) mod n = 0"
      by (rule int_mod_pos_eq[OF e]) (use assms in simp_all)
    ultimately show ?thesis by simp
  next
    case False
    then have c: "x mod n + 1 < n" using b by linarith
    have e: "x + 1 = n * (x div n) + (x mod n + 1)" using a by linarith
    have "(x + 1) div n = x div n"
      by (rule int_div_pos_eq[OF e]) (use b c in simp_all)
    moreover have "(x + 1) mod n = x mod n + 1"
      by (rule int_mod_pos_eq[OF e]) (use b c in simp_all)
    ultimately show ?thesis using b by simp
  qed
qed

lemma year_mod_4: "((y::int) - 1968) mod 4 = y mod 4"
proof -
  have "y - 1968 = y + (-492) * 4" by simp
  then show ?thesis by (metis mod_mult_self1)
qed

lemma year_mod_100: "((y::int) - 1900) mod 100 = y mod 100" 
proof -
  have "y - 1900 = y + (-19) * 100" by simp
  then show ?thesis by (metis mod_mult_self1)
qed

lemma year_mod_400: "((y::int) - 1600) mod 400 = y mod 400" 
proof -
  have "y - 1600 = y + (-4) * 400" by simp
  then show ?thesis by (metis mod_mult_self1)
qed

lemma DayFromYear_step: "DayFromYear (y + 1) = DayFromYear y + DaysInYear y"
proof -
  have a: "(y + 1 - 1969) div 4 = (y - 1969) div 4 + (if y mod 4 = 0 then 1 else 0)"
    using div_step[of 4 "y - 1969"] year_mod_4[of y] by (simp add: algebra_simps)
  have b: "(y + 1 - 1901) div 100 = (y - 1901) div 100 + (if y mod 100 = 0 then 1 else 0)"
    using div_step[of 100 "y - 1901"] year_mod_100[of y] by (simp add: algebra_simps)
  have c: "(y + 1 - 1601) div 400 = (y - 1601) div 400 + (if y mod 400 = 0 then 1 else 0)"
    using div_step[of 400 "y - 1601"] year_mod_400[of y] by (simp add: algebra_simps)
  have d: "y mod 100 = 0 \<Longrightarrow> y mod 4 = 0"
    by presburger
  have e: "y mod 400 = 0 \<Longrightarrow> y mod 100 = 0"
    by presburger
  show ?thesis
    unfolding DayFromYear_def DaysInYear_def a b c using d e by auto
qed


lemma div_lo: "0 < (n::int) \<Longrightarrow> n * (x div n) \<le> x"
  using pos_mod_sign[of n x] mult_div_mod_eq[of n x] by linarith

lemma div_hi: "0 < (n::int) \<Longrightarrow> x < n * (x div n) + n"
  using pos_mod_bound[of n x] mult_div_mod_eq[of n x] by linarith

lemma DayFromYear_lower: "146097 * y - 287811790 \<le> 400 * DayFromYear y"
proof -
  define a where "a = (y - 1969) div 4"
  define b where "b = (y - 1901) div 100"
  define c where "c = (y - 1601) div 400"
  have "y - 1969 < 4 * a + 4" unfolding a_def by (rule div_hi) simp
  moreover have "100 * b \<le> y - 1901" unfolding b_def by (rule div_lo) simp
  moreover have "y - 1601 < 400 * c + 400" unfolding c_def by (rule div_hi) simp
  moreover have "DayFromYear y = 365 * y - 719050 + a - b + c"
    by (simp add: DayFromYear_def a_def b_def c_def)
  ultimately show ?thesis by linarith
qed

lemma DayFromYear_upper: "400 * DayFromYear y \<le> 146097 * y - 287810390"
proof -
  define a where "a = (y - 1969) div 4"
  define b where "b = (y - 1901) div 100"
  define c where "c = (y - 1601) div 400"
  have "4 * a \<le> y - 1969" unfolding a_def by (rule div_lo) simp
  moreover have "y - 1901 < 100 * b + 100" unfolding b_def by (rule div_hi) simp
  moreover have "400 * c \<le> y - 1601" unfolding c_def by (rule div_lo) simp
  moreover have "DayFromYear y = 365 * y - 719050 + a - b + c"
    by (simp add: DayFromYear_def a_def b_def c_def)
  ultimately show ?thesis by linarith
qed

lemma DaysInYear_ge: "365 \<le> DaysInYear y" and DaysInYear_le: "DaysInYear y \<le> 366"
  by (simp_all add: DaysInYear_def)

lemma year_estimate:
  fixes d :: int
  defines "k \<equiv> (400 * d) div 146097"
  shows "146097 * k \<le> 400 * d" and "400 * d < 146097 * k + 146097"
  unfolding k_def by (rule div_lo, simp) (rule div_hi, simp)

lemma YearFromDay_spec:
  "DayFromYear (YearFromDay d) \<le> d \<and> d < DayFromYear (YearFromDay d + 1)"
proof -
  define k where "k = (400 * d) div 146097"
  define e where "e = 1970 + k"
  define p where "p = e - 1"
  define n where "n = e + 2"
  have e1: "146097 * k \<le> 400 * d" and e2: "400 * d < 146097 * k + 146097"
    unfolding k_def by (rule year_estimate)+
  have lo: "DayFromYear p \<le> d"
    using DayFromYear_upper[of p] e1 p_def e_def by linarith
  have hi: "d < DayFromYear n"
    using DayFromYear_lower[of n] e2 n_def e_def by linarith
  have s: "p + 1 = e" "e + 1 + 1 = n" by (simp_all add: n_def p_def)
  have yfd: "YearFromDay d = (if DayFromYear (e + 1) \<le> d then e + 1
         else if DayFromYear e \<le> d then e else p)"
    by (simp add: YearFromDay_def e_def k_def Let_def p_def)
  show ?thesis
  proof (cases "DayFromYear (e + 1) \<le> d")
    case True
    then show ?thesis using yfd hi by (simp add: s)
  next
    case False
    then show ?thesis using yfd lo by (cases "DayFromYear e \<le> d") (simp_all add: s)
  qed
qed

lemma YearFromDay_unique:
  assumes "DayFromYear y \<le> d" "d < DayFromYear (y + 1)"
  shows "YearFromDay d = y"
proof -
  define k where "k = (400 * d) div 146097"
  define e where "e = 1970 + k"
  define n where "n = y + 1"
  have e1: "146097 * k \<le> 400 * d" and e2: "400 * d < 146097 * k + 146097"
    unfolding k_def by (rule year_estimate)+
  have "y - 1 \<le> e"
    using DayFromYear_lower[of y] assms(1) e2 e_def by linarith
  moreover have "e \<le> y + 1"
    using DayFromYear_upper[of n] assms(2)[folded n_def] e1 e_def n_def by linarith
  ultimately consider "e = y - 1" | "e = y" | "e = y + 1" by linarith
  moreover have yfd: "YearFromDay d = (if DayFromYear (e + 1) \<le> d then e + 1
         else if DayFromYear e \<le> d then e else e - 1)"
    by (simp add: YearFromDay_def e_def k_def Let_def)
  ultimately show ?thesis
  proof cases
    case 1
    then have "e + 1 = y" by simp
    then show ?thesis using yfd assms by simp
  next
    case 2
    then show ?thesis using yfd assms by simp
  next
    case 3
    have "DayFromYear (y + 1) \<le> DayFromYear (y + 1 + 1)"
      using DayFromYear_step[of "y + 1"] DaysInYear_ge[of "y + 1"] by linarith
    then show ?thesis using yfd assms 3 by simp
  qed
qed


lemma Day_MakeDate:
  assumes "0 \<le> tm" "tm < msPerDay"
  shows "Day (MakeDate day tm) = day" and "TimeWithinDay (MakeDate day tm) = tm"
proof -
  have e: "MakeDate day tm = msPerDay * day + tm" by (simp add: MakeDate_def)
  show "Day (MakeDate day tm) = day"
    unfolding Day_def by (rule int_div_pos_eq[OF e assms])
  show "TimeWithinDay (MakeDate day tm) = tm"
    unfolding TimeWithinDay_def by (rule int_mod_pos_eq[OF e assms])
qed

lemma month_cases:
  fixes m :: int
  assumes "0 \<le> m" "m \<le> 11"
  obtains "m = 0" | "m = 1" | "m = 2" | "m = 3" | "m = 4" | "m = 5" | "m = 6"
        | "m = 7" | "m = 8" | "m = 9" | "m = 10" | "m = 11"
proof -
  have "m = 0 \<or> m = 1 \<or> m = 2 \<or> m = 3 \<or> m = 4 \<or> m = 5 \<or> m = 6
        \<or> m = 7 \<or> m = 8 \<or> m = 9 \<or> m = 10 \<or> m = 11"
    using assms by arith
  then show thesis using that by blast
qed

lemma MakeDay_in_year:
  assumes "0 \<le> mi" "mi \<le> 11"
  shows "MakeDay y mi d = DayFromYear y + monthStart mi (if DaysInYear y = 366 then 1 else 0) + d - 1"
proof -
  have "mi div 12 = 0" "mi mod 12 = mi" using assms by simp_all
  then show ?thesis by (simp add: MakeDay_def)
qed

lemma DaysInYear_cases: "DaysInYear y = 365 \<or> DaysInYear y = 366"
  by (simp add: DaysInYear_def)

lemma day_in_year_bounds:
  assumes "0 \<le> mi" "mi \<le> 11" "1 \<le> d" "d \<le> daysInMonth y (mi + 1)"
  defines "l \<equiv> (if DaysInYear y = 366 then 1 else 0 :: int)"
  shows "0 \<le> monthStart mi l + d - 1" and "monthStart mi l + d - 1 < DaysInYear y"
  using assms(1,2)
  by (cases rule: month_cases)
     (use assms(3,4) DaysInYear_cases[of y] in \<open>auto simp: monthStart_def daysInMonth_def l_def split: if_splits\<close>)


lemma civil_roundtrip:
  assumes "0 \<le> mi" "mi \<le> 11" "1 \<le> d" "d \<le> daysInMonth y (mi + 1)"
    and "0 \<le> tm" "tm < msPerDay"
  defines "t \<equiv> MakeDate (MakeDay y mi d) tm"
  shows "YearFromTime t = y" and "MonthFromTime t = mi" and "DateFromTime t = d"
proof -
  define l :: int where "l = (if DaysInYear y = 366 then 1 else 0)"
  define w where "w = monthStart mi l + d - 1"
  have day: "Day t = DayFromYear y + w"
    unfolding t_def w_def l_def
    using Day_MakeDate(1)[OF assms(5,6)] MakeDay_in_year[OF assms(1,2)] by simp
  have w0: "0 \<le> w" and w1: "w < DaysInYear y"
    unfolding w_def l_def by (rule day_in_year_bounds[OF assms(1-4)])+
  have "DayFromYear y \<le> Day t" using day w0 by simp
  moreover have "Day t < DayFromYear (y + 1)"
    using day w1 DayFromYear_step[of y] by simp
  ultimately show Y: "YearFromTime t = y"
    unfolding YearFromTime_def by (rule YearFromDay_unique)
  have L: "InLeapYear t = l" by (simp add: InLeapYear_def Y l_def)
  have W: "DayWithinYear t = w" by (simp add: DayWithinYear_def Y day)
  have lc: "l = 0 \<or> l = 1" by (simp add: l_def)
  have dim: "d \<le> daysInMonth y (mi + 1)" by (rule assms(4))
  show M: "MonthFromTime t = mi"
    using assms(1,2)
    by (cases rule: month_cases)
       (use assms(3) dim lc in
          \<open>auto simp: MonthFromTime_def W L w_def monthStart_def daysInMonth_def l_def\<close>)
  show "DateFromTime t = d"
    by (simp add: DateFromTime_def W L M w_def)
qed


lemma MonthFromTime_range: "0 \<le> MonthFromTime t" "MonthFromTime t \<le> 11"
  by (simp_all add: MonthFromTime_def Let_def)

lemma MakeDay_of_fields:
  "MakeDay (YearFromTime t) (MonthFromTime t) dt = Day t - DateFromTime t + dt"
  using MakeDay_in_year[OF MonthFromTime_range, of "YearFromTime t" t dt]
  by (simp add: DateFromTime_def DayWithinYear_def InLeapYear_def)

lemma TimeWithinDay_range: "0 \<le> TimeWithinDay t" "TimeWithinDay t < msPerDay"
  by (simp_all add: TimeWithinDay_def msPerDay_def)

lemma Day_midnight: "Day (n * msPerDay) = n" "TimeWithinDay (n * msPerDay) = 0"
  by (simp_all add: Day_def TimeWithinDay_def msPerDay_def)

lemma mondayOnOrBefore_props:
  "(mondayOnOrBefore n + 4) mod 7 = 1" "mondayOnOrBefore n \<le> n" "n - 6 \<le> mondayOnOrBefore n"
  unfolding mondayOnOrBefore_def by presburger+

lemma fields_of_Day:
  assumes "Day a = Day b"
  shows "YearFromTime a = YearFromTime b" and "MonthFromTime a = MonthFromTime b"
    and "DateFromTime a = DateFromTime b" and "WeekDay a = WeekDay b"
proof -
  show y: "YearFromTime a = YearFromTime b" by (simp add: YearFromTime_def assms)
  have l: "InLeapYear a = InLeapYear b" by (simp add: InLeapYear_def y)
  have w: "DayWithinYear a = DayWithinYear b" by (simp add: DayWithinYear_def y assms)
  show m: "MonthFromTime a = MonthFromTime b" by (simp add: MonthFromTime_def l w)
  show "DateFromTime a = DateFromTime b" by (simp add: DateFromTime_def l w m)
  show "WeekDay a = WeekDay b" by (simp add: WeekDay_def assms)
qed

lemma Day_plus_time:
  assumes "0 \<le> tm" "tm < msPerDay"
  shows "Day (n * msPerDay + tm) = n" and "TimeWithinDay (n * msPerDay + tm) = tm"
  using Day_MakeDate[OF assms, of n] by (simp_all add: MakeDate_def)

lemma daysInMonth_ge: "1 \<le> daysInMonth y m"
  by (simp add: daysInMonth_def)

lemma DayWithinYear_nonneg: "0 \<le> DayWithinYear t"
  using YearFromDay_spec[of "Day t"] by (simp add: DayWithinYear_def YearFromTime_def)

lemma InLeapYear_cases: "InLeapYear t = 0 \<or> InLeapYear t = 1"
  by (simp add: InLeapYear_def)

lemma DateFromTime_ge1: "1 \<le> DateFromTime t"
proof -
  define w where "w = DayWithinYear t"
  define l where "l = InLeapYear t"
  have "0 \<le> w" "l = 0 \<or> l = 1"
    using DayWithinYear_nonneg[of t] InLeapYear_cases[of t] by (simp_all add: w_def l_def)
  then show ?thesis
    unfolding DateFromTime_def MonthFromTime_def Let_def w_def[symmetric] l_def[symmetric]
    by (auto simp: monthStart_def)
qed

lemma MakeDay_normalise:
  "MakeDay y m d = MakeDay (y + m div 12) (m mod 12) d"
proof -
  have "(m mod 12) div 12 = 0" "(m mod 12) mod 12 = m mod 12" by simp_all
  then show ?thesis by (simp add: MakeDay_def)
qed

text \<open>The calendar fields of any time on the day \<open>MakeDay y mi d\<close>.\<close>

lemma fields_on_day:
  assumes "0 \<le> mi" "mi \<le> 11" "1 \<le> d" "d \<le> daysInMonth y (mi + 1)"
    and "Day t = MakeDay y mi d"
  shows "YearFromTime t = y" and "MonthFromTime t = mi" and "DateFromTime t = d"
proof -
  have z: "(0::int) \<le> 0" "(0::int) < msPerDay" by (simp_all add: msPerDay_def)
  have "Day t = Day (MakeDate (MakeDay y mi d) 0)"
    using Day_MakeDate(1)[OF z] assms(5) by simp
  note f = fields_of_Day[OF this]
  show "YearFromTime t = y" and "MonthFromTime t = mi" and "DateFromTime t = d"
    using f civil_roundtrip[OF assms(1-4) z] by simp_all
qed

section \<open>Dates in a zone\<close>

lemma staysOnDay_D:
  assumes "staysOnDay z lt"
  shows "TimeClip (UTC z lt) = Num (UTC z lt)" and "Day (readBack z lt) = Day lt"
    and "\<bar>UTC z lt\<bar> \<le> 8640000000000000"
  using assms by (auto simp: staysOnDay_def readBack_def TimeClip_def split: if_splits)

lemma copyDate_valid: "\<bar>t\<bar> \<le> 8640000000000000 \<Longrightarrow> copyDate (DateOf (Num t)) = DateOf (Num t)"
  by (simp add: TimeClip_def)

text \<open>
  \<open>setDate\<close> by \<open>k\<close> days from the current day, and \<open>setHours(0,0,0,0)\<close>, when the host keeps
  the local time that is asked for on its day.
\<close>

lemma setDate_stays:
  assumes "staysOnDay z ((Day (LocalTime z t) + k) * msPerDay + TimeWithinDay (LocalTime z t))"
  shows "setDate z (DateOf (Num t)) (Num (DateFromTime (LocalTime z t) + k))
         = DateOf (Num (UTC z ((Day (LocalTime z t) + k) * msPerDay + TimeWithinDay (LocalTime z t))))"
proof -
  define c where "c = LocalTime z t"
  have "MakeDate (MakeDay (YearFromTime c) (MonthFromTime c) (DateFromTime c + k)) (TimeWithinDay c)
        = (Day c + k) * msPerDay + TimeWithinDay c"
    by (simp add: MakeDay_of_fields MakeDate_def)
  then show ?thesis
    using staysOnDay_D(1)[OF assms] by (simp add: c_def[symmetric])
qed

lemma setHours0_stays:
  assumes "staysOnDay z (Day (LocalTime z t) * msPerDay)"
  shows "setHours0 z (DateOf (Num t)) = DateOf (Num (UTC z (Day (LocalTime z t) * msPerDay)))"
  using staysOnDay_D(1)[OF assms] by (simp add: MakeDate_def MakeTime_def)

lemma num_rem_week: "0 \<le> w \<Longrightarrow> num_rem (num_add (Num w) (Num 6)) (Num 7) = Num ((w + 6) mod 7)"
  by simp

text \<open>
  \<open>startOfWeek\<close> of a valid date whose local time is \<open>c\<close>: with \<open>S\<close> the Monday on or before the
  day of \<open>c\<close>, it asks for day \<open>S\<close> at the time of day of \<open>c\<close>, then for midnight of \<open>S\<close>.
\<close>

lemma startOfWeek_stays:
  assumes v: "\<bar>t\<bar> \<le> 8640000000000000"
    and S: "S = mondayOnOrBefore (Day (LocalTime z t))"
    and k1: "staysOnDay z (S * msPerDay + TimeWithinDay (LocalTime z t))"
    and k2: "staysOnDay z (S * msPerDay)"
  shows "startOfWeek z (DateOf (Num t)) = DateOf (Num (UTC z (S * msPerDay)))"
proof -
  define c where "c = LocalTime z t"
  define day where "day = (WeekDay c + 6) mod 7"
  have w: "0 \<le> WeekDay c" by (simp add: WeekDay_def)
  have r: "num_rem (num_add (getDay z (DateOf (Num t))) (Num 6)) (Num 7) = Num day"
    using num_rem_week[OF w] by (simp add: c_def day_def)
  have Sd: "S = Day c + (- day)"
    by (simp add: S mondayOnOrBefore_def day_def WeekDay_def c_def)
  have g: "num_sub (getDate z (DateOf (Num t))) (Num day) = Num (DateFromTime (LocalTime z t) + (- day))"
    by simp
  have k1': "staysOnDay z ((Day (LocalTime z t) + (- day)) * msPerDay + TimeWithinDay (LocalTime z t))"
    using k1 by (simp add: Sd c_def)
  have s1: "setDate z (DateOf (Num t)) (Num (DateFromTime (LocalTime z t) + (- day)))
            = DateOf (Num (UTC z (S * msPerDay + TimeWithinDay c)))"
    using setDate_stays[OF k1'] by (simp add: Sd c_def)
  have d1: "Day (LocalTime z (UTC z (S * msPerDay + TimeWithinDay c))) = S"
    using staysOnDay_D(2)[OF k1] TimeWithinDay_range[of c] Day_plus_time(1)[of "TimeWithinDay c" S]
    by (simp add: readBack_def c_def)
  have k2': "staysOnDay z (Day (LocalTime z (UTC z (S * msPerDay + TimeWithinDay c))) * msPerDay)"
    using k2 by (simp add: d1)
  have s2: "setHours0 z (DateOf (Num (UTC z (S * msPerDay + TimeWithinDay c))))
            = DateOf (Num (UTC z (S * msPerDay)))"
    using setHours0_stays[OF k2'] by (simp add: d1)
  show ?thesis
    unfolding startOfWeek_def Let_def r copyDate_valid[OF v] g s1 s2 by (rule refl)
qed

section \<open>Status severity is total\<close>

text \<open>
  Claim C4. \<open>statusToSeverity\<close> maps Approvato to 1, In revisione to 2, Da correggere to 3
  and Bozza to 0; for every string the result is one of 0, 1, 2, 3, and every string
  outside the four statuses gets 0.
\<close>

theorem statusToSeverity_total:
  "statusToSeverity ''Approvato'' = 1 \<and>
   statusToSeverity ''In revisione'' = 2 \<and>
   statusToSeverity ''Da correggere'' = 3 \<and>
   statusToSeverity ''Bozza'' = 0 \<and>
   (\<forall>s. statusToSeverity s \<in> {0, 1, 2, 3}) \<and>
   (\<forall>s. s \<notin> {''Approvato'', ''In revisione'', ''Da correggere'', ''Bozza''}
        \<longrightarrow> statusToSeverity s = 0)"
  by (simp add: statusToSeverity_def)

theorem statusToSeverity_total_witness:
  "''Archiviato'' \<notin> {''Approvato'', ''In revisione'', ''Da correggere'', ''Bozza''} \<and>
   statusToSeverity ''Archiviato'' = 0"
  using statusToSeverity_total by simp

section \<open>The board filter and the calendar filter\<close>

lemma key_A: "dateKeyFromLocalString zoneUTC ''2025-10-29T09:00'' = ''2025-10-29''"
  by code_simp

lemma key_B: "dateKeyFromLocalString zoneUTC ''2025-10-29T18:00'' = ''2025-10-29''"
  by code_simp

lemma key_C: "dateKeyFromLocalString zoneUTC ''2025-10-30T10:00'' = ''2025-10-30''"
  by code_simp

lemma truthy_iff: "truthy x = (x \<noteq> None \<and> x \<noteq> Some [])"
  by (cases x) simp_all

lemma toLowerCase_Nil: "(toLowerCase s = []) = (s = [])"
  by (simp add: toLowerCase_def)

text \<open>The board's callback without a selected day, as a conjunction of four predicates.\<close>

lemma filteredKeeps_no_day:
  "filteredKeeps z sf pf os None q it =
     ((sf = ''Tutti'' \<or> status it = sf) \<and>
      (case pf of Tutte \<Rightarrow> True | Only p \<Rightarrow> enabled (platforms it p)) \<and>
      (os \<longrightarrow> truthy (scheduledAt it)) \<and>
      (toLowerCase (trim q) = [] \<or> includesStr (toLowerCase (hay it)) (toLowerCase (trim q))))"
  by (auto simp: filteredKeeps_def Let_def split: PlatformFilter.splits)

lemma filteredKeeps_day:
  "filteredKeeps z sf pf os sel q it =
     (filteredKeeps z sf pf os None q it \<and>
      (truthy sel \<longrightarrow> truthy (scheduledAt it) \<and> keyOf z it = orEmpty sel))"
  by (auto simp: filteredKeeps_def keyOf_def Let_def split: PlatformFilter.splits)

text \<open>
  The two callbacks agree on every query that \<open>trim\<close> leaves unchanged: the board trims the
  query before it searches, the calendar does not.
\<close>

lemma trimmed_query_agree:
  "trim q = q \<Longrightarrow> filteredKeeps z sf pf os None q it = calendarKeeps sf pf os q it"
  by (auto simp: filteredKeeps_no_day calendarKeeps_def toLowerCase_Nil
           split: PlatformFilter.splits)

text \<open>
  Claim C3 says that a post passes the status, platform, scheduled-only and search
  predicates of the board exactly when it passes them in the calendar. The code differs
  on the search predicate: with the query \<open>bozza\<close> followed by a space, no day selected and
  the other filters open, the board keeps the unscheduled draft \<open>postU\<close> (it searches for
  the trimmed query) and the calendar drops it (it searches for the query with its space,
  which the text of the post, ending in its status, does not contain).
\<close>

theorem calendar_query_not_trimmed:
  "filteredKeeps z ''Tutti'' Tutte False None ''bozza '' postU \<and>
   \<not> calendarKeeps ''Tutti'' Tutte False ''bozza '' postU"
  by code_simp

theorem calendar_query_not_trimmed_witness:
  "filteredKeeps zoneUTC ''Tutti'' Tutte False None ''bozza '' postU \<noteq>
   calendarKeeps ''Tutti'' Tutte False ''bozza '' postU"
  using calendar_query_not_trimmed[of zoneUTC] by simp

text \<open>
  Claim C8. Without a selected day the board's callback is the conjunction of the four
  other predicates, so the selected-day predicate passes every post; with a selected day
  (a day key, never the empty string) it passes a post if and only if the four others do
  and the post has a non-empty \<open>scheduledAt\<close> whose day key is the selected day.
\<close>

theorem selected_day_predicate:
  "filteredKeeps z sf pf os None q it =
     ((sf = ''Tutti'' \<or> status it = sf) \<and>
      (case pf of Tutte \<Rightarrow> True | Only p \<Rightarrow> enabled (platforms it p)) \<and>
      (os \<longrightarrow> truthy (scheduledAt it)) \<and>
      (toLowerCase (trim q) = [] \<or> includesStr (toLowerCase (hay it)) (toLowerCase (trim q)))) \<and>
   (day \<noteq> [] \<longrightarrow>
    filteredKeeps z sf pf os (Some day) q it =
      (filteredKeeps z sf pf os None q it \<and>
       (\<exists>s. scheduledAt it = Some s \<and> s \<noteq> [] \<and> dateKeyFromLocalString z s = day)))"
proof (intro conjI impI)
  show "filteredKeeps z sf pf os None q it =
     ((sf = ''Tutti'' \<or> status it = sf) \<and>
      (case pf of Tutte \<Rightarrow> True | Only p \<Rightarrow> enabled (platforms it p)) \<and>
      (os \<longrightarrow> truthy (scheduledAt it)) \<and>
      (toLowerCase (trim q) = [] \<or> includesStr (toLowerCase (hay it)) (toLowerCase (trim q))))"
    by (rule filteredKeeps_no_day)
next
  assume "day \<noteq> []"
  then show "filteredKeeps z sf pf os (Some day) q it =
      (filteredKeeps z sf pf os None q it \<and>
       (\<exists>s. scheduledAt it = Some s \<and> s \<noteq> [] \<and> dateKeyFromLocalString z s = day))"
    by (cases "scheduledAt it") (auto simp: filteredKeeps_day[of z sf pf os "Some day"] keyOf_def)
qed

text \<open>
  The scenario of the claim: with day 2025-10-29 selected, post C (scheduled on
  2025-10-30) is not on the board and post A (scheduled on 2025-10-29) is; with no day
  selected both are.
\<close>

theorem selected_day_predicate_witness:
  "''2025-10-29'' \<noteq> [] \<and>
   \<not> filteredKeeps zoneUTC ''Tutti'' Tutte False (Some ''2025-10-29'') [] postC \<and>
   filteredKeeps zoneUTC ''Tutti'' Tutte False (Some ''2025-10-29'') [] postA \<and>
   filtered zoneUTC [postA, postC] ''Tutti'' Tutte False (Some ''2025-10-29'') [] = [postA] \<and>
   filtered zoneUTC [postA, postC] ''Tutti'' Tutte False None [] = [postA, postC]"
proof -
  have n: "filteredKeeps zoneUTC ''Tutti'' Tutte False None [] postC"
          "filteredKeeps zoneUTC ''Tutti'' Tutte False None [] postA"
    by (simp_all add: filteredKeeps_no_day trim_def toLowerCase_def)
  have c: "\<not> filteredKeeps zoneUTC ''Tutti'' Tutte False (Some ''2025-10-29'') [] postC"
    using selected_day_predicate[of zoneUTC "''Tutti''" Tutte False "[]" postC "''2025-10-29''"]
    by (simp add: postC_def samplePost_def key_C)
  have a: "filteredKeeps zoneUTC ''Tutti'' Tutte False (Some ''2025-10-29'') [] postA"
    using selected_day_predicate[of zoneUTC "''Tutti''" Tutte False "[]" postA "''2025-10-29''"] n
    by (simp add: postA_def samplePost_def key_A)
  show ?thesis using a c n by (simp add: filtered_def)
qed

text \<open>
  Claim C9. With the scheduled-only flag on, no post of the board's result lacks
  \<open>scheduledAt\<close> (absent or empty); and for any fixed filter settings, filtering the result
  again returns it unchanged.
\<close>

theorem filtered_scheduled_only_idempotent:
  "(\<forall>it \<in> set (filtered z its sf pf True sel q).
      scheduledAt it \<noteq> None \<and> scheduledAt it \<noteq> Some []) \<and>
   filtered z (filtered z its sf pf os sel q) sf pf os sel q = filtered z its sf pf os sel q"
proof
  show "\<forall>it \<in> set (filtered z its sf pf True sel q).
          scheduledAt it \<noteq> None \<and> scheduledAt it \<noteq> Some []"
    by (simp add: filtered_def filteredKeeps_day[of z sf pf True sel] filteredKeeps_no_day
                  truthy_iff)
  show "filtered z (filtered z its sf pf os sel q) sf pf os sel q = filtered z its sf pf os sel q"
    by (simp add: filtered_def)
qed

theorem filtered_scheduled_only_idempotent_witness:
  "postA \<in> set (filtered zoneUTC [postU, postA] ''Tutti'' Tutte True None []) \<and>
   scheduledAt postA \<noteq> None \<and> scheduledAt postA \<noteq> Some [] \<and>
   postU \<notin> set (filtered zoneUTC [postU, postA] ''Tutti'' Tutte True None [])"
proof -
  have a: "filtered zoneUTC [postU, postA] ''Tutti'' Tutte True None [] = [postA]"
    by (simp add: filtered_def filteredKeeps_no_day postA_def postU_def samplePost_def
                  trim_def toLowerCase_def)
  have "postU \<noteq> postA"
    by (simp add: postA_def postU_def samplePost_def)
  then show ?thesis
    using filtered_scheduled_only_idempotent[of zoneUTC "[postU, postA]" "''Tutti''" Tutte None "[]"] a
    by simp
qed

section \<open>Updating and removing items\<close>

text \<open>
  Claim C10. \<open>updateItem\<close> keeps the length and the order; a post whose id differs from
  the given id is unchanged at its position; in a matched post every field whose key is
  not in the patch keeps its value. \<open>removeItem\<close> returns a subsequence of the collection
  (so the order is kept and no post is altered) that has no post with the given id and
  is shorter by exactly the number of posts with that id.
\<close>

theorem updateItem_removeItem_frame:
  "length (updateItem i patch prev) = length prev \<and>
   (\<forall>k < length prev.
      (itemId (prev ! k) \<noteq> i \<longrightarrow> updateItem i patch prev ! k = prev ! k) \<and>
      (itemId (prev ! k) = i \<longrightarrow>
         (patch_id patch = None \<longrightarrow> itemId (updateItem i patch prev ! k) = itemId (prev ! k)) \<and>
         (patch_createdAt patch = None \<longrightarrow> createdAt (updateItem i patch prev ! k) = createdAt (prev ! k)) \<and>
         (patch_imageUrl patch = None \<longrightarrow> imageUrl (updateItem i patch prev ! k) = imageUrl (prev ! k)) \<and>
         (patch_imageName patch = None \<longrightarrow> imageName (updateItem i patch prev ! k) = imageName (prev ! k)) \<and>
         (patch_platforms patch = None \<longrightarrow> platforms (updateItem i patch prev ! k) = platforms (prev ! k)) \<and>
         (patch_scheduledAt patch = None \<longrightarrow> scheduledAt (updateItem i patch prev ! k) = scheduledAt (prev ! k)) \<and>
         (patch_owner patch = None \<longrightarrow> owner (updateItem i patch prev ! k) = owner (prev ! k)) \<and>
         (patch_notes patch = None \<longrightarrow> notes (updateItem i patch prev ! k) = notes (prev ! k)) \<and>
         (patch_status patch = None \<longrightarrow> status (updateItem i patch prev ! k) = status (prev ! k)) \<and>
         (patch_tags patch = None \<longrightarrow> tags (updateItem i patch prev ! k) = tags (prev ! k)))) \<and>
   subseq (removeItem i prev) prev \<and>
   (\<forall>it \<in> set (removeItem i prev). itemId it \<noteq> i) \<and>
   length (removeItem i prev) + length (filter (\<lambda>it. itemId it = i) prev) = length prev"
proof (intro conjI allI impI)
  show "length (updateItem i patch prev) = length prev"
    by (simp add: updateItem_def)
next
  show "subseq (removeItem i prev) prev"
    by (simp add: removeItem_def)
next
  show "\<forall>it \<in> set (removeItem i prev). itemId it \<noteq> i"
    by (simp add: removeItem_def)
next
  show "length (removeItem i prev) + length (filter (\<lambda>it. itemId it = i) prev) = length prev"
    unfolding removeItem_def using sum_length_filter_compl[of "\<lambda>it. itemId it = i" prev]
    by simp
qed (simp_all add: updateItem_def spread_def)

theorem updateItem_removeItem_frame_witness:
  "updateItem ''A'' (statusPatch ''In revisione'') [postA, postB] ! 1 = postB \<and>
   scheduledAt (updateItem ''A'' (statusPatch ''In revisione'') [postA, postB] ! 0) = scheduledAt postA \<and>
   status (updateItem ''A'' (statusPatch ''In revisione'') [postA, postB] ! 0) = ''In revisione'' \<and>
   removeItem ''A'' [postA, postB] = [postB]"
proof -
  have ids: "itemId postA = ''A''" "itemId postB = ''B''"
    by (simp_all add: postA_def postB_def samplePost_def)
  have p: "patch_scheduledAt (statusPatch ''In revisione'') = None"
    by (simp add: statusPatch_def)
  have "updateItem ''A'' (statusPatch ''In revisione'') [postA, postB] ! 1 = postB"
    using updateItem_removeItem_frame[of "''A''" "statusPatch ''In revisione''" "[postA, postB]"] ids
    by (auto dest!: spec[of _ 1])
  moreover have "scheduledAt (updateItem ''A'' (statusPatch ''In revisione'') [postA, postB] ! 0) = scheduledAt postA"
    using updateItem_removeItem_frame[of "''A''" "statusPatch ''In revisione''" "[postA, postB]"] ids p
    by (auto dest!: spec[of _ 0])
  moreover have "status (updateItem ''A'' (statusPatch ''In revisione'') [postA, postB] ! 0) = ''In revisione''"
    by (simp add: updateItem_def ids spread_def statusPatch_def)
  moreover have "removeItem ''A'' [postA, postB] = [postB]"
    by (simp add: removeItem_def ids)
  ultimately show ?thesis by blast
qed

section \<open>The aggregator\<close>

lemma addPost_unscheduled: "\<not> truthy (scheduledAt it) \<Longrightarrow> addPost z m it = m"
  by (simp add: addPost_def)

lemma foldl_addPost_filter:
  "foldl (addPost z) m its = foldl (addPost z) m (filter (\<lambda>it. truthy (scheduledAt it)) its)"
  by (induction its arbitrary: m) (simp_all add: addPost_unscheduled)

lemma statusToSeverity_nonneg: "0 \<le> statusToSeverity s"
  by (simp add: statusToSeverity_def)

lemma addPlatform_apply:
  "addPlatform it sevs a p =
     (if a = p \<and> enabled (platforms it p)
      then Some (max (case sevs p of None \<Rightarrow> 0 | Some v \<Rightarrow> v) (statusToSeverity (status it)))
      else sevs p)"
  by (simp add: addPlatform_def Let_def)

lemma foldl_addPlatform_other:
  "p \<notin> set ps \<Longrightarrow> foldl (addPlatform it) sevs ps p = sevs p"
proof (induction ps arbitrary: sevs)
  case Nil
  then show ?case by simp
next
  case (Cons a ps)
  then have "foldl (addPlatform it) (addPlatform it sevs a) ps p = addPlatform it sevs a p"
    by simp
  moreover have "addPlatform it sevs a p = sevs p"
    using Cons.prems by (auto simp: addPlatform_apply)
  ultimately show ?case by simp
qed

lemma foldl_addPlatform_distinct:
  "distinct ps \<Longrightarrow> p \<in> set ps \<Longrightarrow>
   foldl (addPlatform it) sevs ps p =
     (if enabled (platforms it p)
      then Some (max (case sevs p of None \<Rightarrow> 0 | Some v \<Rightarrow> v) (statusToSeverity (status it)))
      else sevs p)"
proof (induction ps arbitrary: sevs)
  case Nil
  then show ?case by simp
next
  case (Cons a ps)
  show ?case
  proof (cases "a = p")
    case True
    then have "p \<notin> set ps" using Cons.prems by simp
    then have "foldl (addPlatform it) sevs (a # ps) p = addPlatform it sevs a p"
      by (simp add: foldl_addPlatform_other)
    also have "\<dots> = (if enabled (platforms it p)
      then Some (max (case sevs p of None \<Rightarrow> 0 | Some v \<Rightarrow> v) (statusToSeverity (status it)))
      else sevs p)"
      using True by (simp add: addPlatform_apply)
    finally show ?thesis .
  next
    case False
    then have "distinct ps" "p \<in> set ps" using Cons.prems by simp_all
    then have "foldl (addPlatform it) (addPlatform it sevs a) ps p =
       (if enabled (platforms it p)
        then Some (max (case addPlatform it sevs a p of None \<Rightarrow> 0 | Some v \<Rightarrow> v)
                       (statusToSeverity (status it)))
        else addPlatform it sevs a p)"
      by (rule Cons.IH)
    moreover have "addPlatform it sevs a p = sevs p"
      using False by (simp add: addPlatform_apply)
    ultimately show ?thesis by simp
  qed
qed

lemma PLATFORMS_all: "distinct PLATFORMS" "p \<in> set PLATFORMS"
  by (simp add: PLATFORMS_def, cases p) (simp_all add: PLATFORMS_def)

lemma foldl_addPlatform:
  "foldl (addPlatform it) sevs PLATFORMS p =
     (if enabled (platforms it p)
      then Some (max (case sevs p of None \<Rightarrow> 0 | Some v \<Rightarrow> v) (statusToSeverity (status it)))
      else sevs p)"
  by (rule foldl_addPlatform_distinct[OF PLATFORMS_all])

lemma maxSeverity_Nil: "maxSeverity p [] = None"
  by (simp add: maxSeverity_def)

lemma maxSeverity_snoc:
  "maxSeverity p (ps @ [it]) =
     (if enabled (platforms it p)
      then Some (max (case maxSeverity p ps of None \<Rightarrow> 0 | Some v \<Rightarrow> v)
                     (statusToSeverity (status it)))
      else maxSeverity p ps)"
proof (cases "enabled (platforms it p)")
  case False
  then show ?thesis by (simp add: maxSeverity_def)
next
  case True
  show ?thesis
  proof (cases "filter (\<lambda>it. enabled (platforms it p)) ps = []")
    case e: True
    then show ?thesis
      using True statusToSeverity_nonneg[of "status it"] by (simp add: maxSeverity_def)
  next
    case ne: False
    then have "set (map (\<lambda>it. statusToSeverity (status it)) (filter (\<lambda>it. enabled (platforms it p)) ps)) \<noteq> {}"
      by (auto simp: filter_empty_conv)
    then show ?thesis
      using True ne by (simp add: maxSeverity_def Let_def max.commute del: set_map)
  qed
qed

lemma dayPosts_snoc:
  "dayPosts z k (its @ [x]) = (if truthy (scheduledAt x) \<and> keyOf z x = k then dayPosts z k its @ [x] else dayPosts z k its)"
  by (simp add: dayPosts_def)

lemma postsByDay_snoc: "postsByDay z (its @ [x]) = addPost z (postsByDay z its) x"
  by (simp add: postsByDay_def)

lemma postsByDay_lookup:
  "postsByDay z its k =
     (if dayPosts z k its = [] then None
      else Some \<lparr> items = dayPosts z k its,
                  platformSeverity = (\<lambda>p. maxSeverity p (dayPosts z k its)) \<rparr>)"
proof (induction its arbitrary: k rule: rev_induct)
  case Nil
  then show ?case by (simp add: postsByDay_def dayPosts_def)
next
  case (snoc x its)
  show ?case
  proof (cases "truthy (scheduledAt x)")
    case False
    then show ?thesis
      using snoc.IH[of k] by (simp add: postsByDay_snoc addPost_def dayPosts_snoc)
  next
    case True
    show ?thesis
    proof (cases "keyOf z x = k")
      case False
      then show ?thesis
        using True snoc.IH[of k]
        by (simp add: postsByDay_snoc addPost_def dayPosts_snoc Let_def keyOf_def)
    next
      case k: True
      have sev: "foldl (addPlatform x) (\<lambda>p. maxSeverity p (dayPosts z k its)) PLATFORMS
                 = (\<lambda>p. maxSeverity p (dayPosts z k its @ [x]))"
        by (rule ext) (simp add: foldl_addPlatform maxSeverity_snoc)
      show ?thesis
      proof (cases "dayPosts z k its = []")
        case e: True
        have "Map.empty = (\<lambda>p. maxSeverity p (dayPosts z k its))"
          by (simp add: e maxSeverity_Nil)
        then have "foldl (addPlatform x) Map.empty PLATFORMS
                 = (\<lambda>p. maxSeverity p (dayPosts z k its @ [x]))"
          using sev by simp
        then show ?thesis
          using True k snoc.IH[of k] e
          by (simp add: postsByDay_snoc addPost_def dayPosts_snoc Let_def keyOf_def[symmetric])
      next
        case False
        then show ?thesis
          using True k snoc.IH[of k] sev
          by (simp add: postsByDay_snoc addPost_def dayPosts_snoc Let_def keyOf_def[symmetric])
      qed
    qed
  qed
qed

lemma dayPosts_Nil_iff:
  "(dayPosts z k its \<noteq> []) =
     (\<exists>it \<in> set its. \<exists>s. scheduledAt it = Some s \<and> s \<noteq> [] \<and> dateKeyFromLocalString z s = k)"
proof -
  have "\<And>it. (truthy (scheduledAt it) \<and> keyOf z it = k) =
        (\<exists>s. scheduledAt it = Some s \<and> s \<noteq> [] \<and> dateKeyFromLocalString z s = k)"
    subgoal for it by (cases "scheduledAt it") (auto simp: keyOf_def)
    done
  then show ?thesis
    by (simp add: dayPosts_def filter_empty_conv)
qed

text \<open>
  Claim C2. For every input sequence and every day key \<open>k\<close>: the output has a bucket at
  \<open>k\<close> if and only if some post has a non-empty \<open>scheduledAt\<close> whose day key is \<open>k\<close>; the
  posts of that bucket are the input posts with that day key, in input order (so the
  count is their number); and the stored severity of each platform is the maximum of
  \<open>statusToSeverity\<close> over the posts of the bucket that have the platform enabled, with no
  entry when no post has.
\<close>

theorem postsByDay_buckets:
  "(postsByDay z its k \<noteq> None) =
     (\<exists>it \<in> set its. \<exists>s. scheduledAt it = Some s \<and> s \<noteq> [] \<and> dateKeyFromLocalString z s = k) \<and>
   (\<forall>b. postsByDay z its k = Some b \<longrightarrow>
      items b = filter (\<lambda>it. truthy (scheduledAt it) \<and> keyOf z it = k) its \<and>
      (\<forall>p. platformSeverity b p = maxSeverity p (items b)))"
proof -
  have "(postsByDay z its k \<noteq> None) = (dayPosts z k its \<noteq> [])"
    by (simp add: postsByDay_lookup)
  moreover have "\<forall>b. postsByDay z its k = Some b \<longrightarrow>
      items b = filter (\<lambda>it. truthy (scheduledAt it) \<and> keyOf z it = k) its \<and>
      (\<forall>p. platformSeverity b p = maxSeverity p (items b))"
    by (auto simp: postsByDay_lookup dayPosts_def[symmetric] split: if_splits)
  ultimately show ?thesis
    by (simp only: dayPosts_Nil_iff) 
qed


text \<open>
  Posts B (severity 3) and A (severity 1) on the same day, B first: the bucket counts two
  posts and stores 3 for Instagram, neither the sum nor the value written last.
\<close>

theorem postsByDay_buckets_witness:
  "\<exists>b. postsByDay zoneUTC [postB, postA] ''2025-10-29'' = Some b \<and>
       items b = [postB, postA] \<and> length (items b) = 2 \<and>
       statusToSeverity (status postB) = 3 \<and> statusToSeverity (status postA) = 1 \<and>
       platformSeverity b Instagram = Some 3 \<and>
       platformSeverity b Facebook = None"
proof -
  have sched: "scheduledAt postB = Some ''2025-10-29T18:00''"
              "scheduledAt postA = Some ''2025-10-29T09:00''"
    by (simp_all add: postA_def postB_def samplePost_def)
  have keys: "keyOf zoneUTC postB = ''2025-10-29''" "keyOf zoneUTC postA = ''2025-10-29''"
    by (simp_all add: keyOf_def sched key_A key_B)
  have sevs: "statusToSeverity (status postB) = 3" "statusToSeverity (status postA) = 1"
    by (simp_all add: postA_def postB_def samplePost_def statusToSeverity_def)
  have en: "enabled (platforms postB Instagram)" "enabled (platforms postA Instagram)"
           "\<not> enabled (platforms postB Facebook)" "\<not> enabled (platforms postA Facebook)"
    by (simp_all add: postA_def postB_def samplePost_def onlyInstagram_def)
  note t = postsByDay_buckets[of zoneUTC "[postB, postA]" "''2025-10-29''"]
  have "postsByDay zoneUTC [postB, postA] ''2025-10-29'' \<noteq> None"
    using t sched key_B by simp
  then obtain b where b: "postsByDay zoneUTC [postB, postA] ''2025-10-29'' = Some b"
    by blast
  have i: "items b = [postB, postA]"
    using t b keys sched by simp
  have "platformSeverity b Instagram = maxSeverity Instagram (items b)"
       "platformSeverity b Facebook = maxSeverity Facebook (items b)"
    using t b by simp_all
  then have "platformSeverity b Instagram = Some 3" "platformSeverity b Facebook = None"
    using i en sevs by (simp_all add: maxSeverity_def)
  then show ?thesis using b i sevs by simp
qed


text \<open>
  Claim C5. \<open>parseLocalDateTime\<close> of the empty string is the Invalid Date, a value; and a
  post whose \<open>scheduledAt\<close> is absent or empty leaves the map unchanged in the round that
  handles it, so that the output for any input sequence is the output for the sequence
  without that post: it creates no bucket and changes no count and no severity.
\<close>

theorem unscheduled_post_no_effect:
  "parseLocalDateTime z [] = DateOf NaN \<and>
   (scheduledAt it = None \<or> scheduledAt it = Some [] \<longrightarrow>
      addPost z m it = m \<and> postsByDay z (xs @ it # ys) = postsByDay z (xs @ ys))"
proof (intro conjI impI)
  show "parseLocalDateTime z [] = DateOf NaN"
    by (simp add: parseLocalDateTime_def)
next
  assume "scheduledAt it = None \<or> scheduledAt it = Some []"
  then have u: "\<not> truthy (scheduledAt it)" by auto
  then show "addPost z m it = m" by (rule addPost_unscheduled)
  show "postsByDay z (xs @ it # ys) = postsByDay z (xs @ ys)"
    using u by (simp add: postsByDay_def addPost_unscheduled)
qed

theorem unscheduled_post_no_effect_witness:
  "scheduledAt postU = None \<and> postsByDay zoneUTC [postA, postU, postB] = postsByDay zoneUTC [postA, postB]"
  using unscheduled_post_no_effect[of zoneUTC postU Map.empty "[postA]" "[postB]"]
  by (simp add: postU_def samplePost_def)

section \<open>The calendar grid\<close>

lemma drop_step: "drop k xs = take 7 (drop k xs) @ drop (7 + k) xs"
  using append_take_drop_id[of 7 "drop k xs"] by (simp only: drop_drop)

lemma chunk_42:
  assumes "length xs = 42"
  shows "\<exists>rows. chunk xs 7 = Some rows \<and> length rows = 6 \<and> (\<forall>r \<in> set rows. length r = 7) \<and> concat rows = xs"
proof -
  have c: "chunk xs 7 = Some [slice xs 0 7, slice xs 7 14, slice xs 14 21, slice xs 21 28,
                              slice xs 28 35, slice xs 35 42]"
    unfolding chunk_def using assms by (simp add: chunk_loop.simps)
  have "xs = take 7 xs @ drop 7 xs" by simp
  also have "drop 7 xs = take 7 (drop 7 xs) @ drop 14 xs" using drop_step[of 7 xs] by simp
  also have "drop 14 xs = take 7 (drop 14 xs) @ drop 21 xs" using drop_step[of 14 xs] by simp
  also have "drop 21 xs = take 7 (drop 21 xs) @ drop 28 xs" using drop_step[of 21 xs] by simp
  also have "drop 28 xs = take 7 (drop 28 xs) @ drop 35 xs" using drop_step[of 28 xs] by simp
  also have "drop 35 xs = take 7 (drop 35 xs)" using assms by simp
  finally have "concat [slice xs 0 7, slice xs 7 14, slice xs 14 21, slice xs 21 28,
                slice xs 28 35, slice xs 35 42] = xs"
    by (simp add: slice_def)
  then show ?thesis
    using c assms by (simp add: slice_def)
qed

lemma days_length: "length (days z c) = 42"
  by (simp add: days_def Let_def)

lemma nth_opt_nth: "i < length xs \<Longrightarrow> nth_opt xs i = Some (xs ! i)"
  by (induction xs i rule: nth_opt.induct) simp_all

lemma weeks_shape:
  "\<exists>rows. weeks z c = Some rows \<and> length rows = 6 \<and> (\<forall>r \<in> set rows. length r = 7) \<and>
          concat rows = days z c"
  unfolding weeks_def by (rule chunk_42[OF days_length])

lemma gridCell_weeks: "i < 42 \<Longrightarrow> gridCell (weeks z c) i = Some (days z c ! i)"
  using weeks_shape[of z c] by (auto simp: gridCell_def nth_opt_nth days_length)

lemma MakeFullYear_idem: "MakeFullYear (MakeFullYear y) = MakeFullYear y"
  by (simp add: MakeFullYear_def)

lemma Day_of_day_time: "Day (n * msPerDay + TimeWithinDay c) = n"
  by (rule Day_plus_time(1)[OF TimeWithinDay_range])

text \<open>The cursor \<open>new Date(y, m, 1)\<close> on a host that keeps midnight of that day on the day.\<close>

lemma firstOfMonth_stays:
  assumes m: "0 \<le> m" "m \<le> 11"
    and k: "staysOnDay z (MakeDay (MakeFullYear y) m 1 * msPerDay)"
  shows "firstOfMonth z (Num y) (Num m) = DateOf (Num (UTC z (MakeDay (MakeFullYear y) m 1 * msPerDay)))"
    and "Day (LocalTime z (UTC z (MakeDay (MakeFullYear y) m 1 * msPerDay))) = MakeDay (MakeFullYear y) m 1"
    and "YearFromTime (LocalTime z (UTC z (MakeDay (MakeFullYear y) m 1 * msPerDay))) = MakeFullYear y"
    and "MonthFromTime (LocalTime z (UTC z (MakeDay (MakeFullYear y) m 1 * msPerDay))) = m"
    and "DateFromTime (LocalTime z (UTC z (MakeDay (MakeFullYear y) m 1 * msPerDay))) = 1"
proof -
  show "firstOfMonth z (Num y) (Num m) = DateOf (Num (UTC z (MakeDay (MakeFullYear y) m 1 * msPerDay)))"
    using staysOnDay_D(1)[OF k] by (simp add: firstOfMonth_def MakeDate_def MakeTime_def)
  show d: "Day (LocalTime z (UTC z (MakeDay (MakeFullYear y) m 1 * msPerDay))) = MakeDay (MakeFullYear y) m 1"
    using staysOnDay_D(2)[OF k] by (simp add: readBack_def Day_midnight)
  have d1: "(1::int) \<le> daysInMonth (MakeFullYear y) (m + 1)" by (rule daysInMonth_ge)
  show "YearFromTime (LocalTime z (UTC z (MakeDay (MakeFullYear y) m 1 * msPerDay))) = MakeFullYear y"
    and "MonthFromTime (LocalTime z (UTC z (MakeDay (MakeFullYear y) m 1 * msPerDay))) = m"
    and "DateFromTime (LocalTime z (UTC z (MakeDay (MakeFullYear y) m 1 * msPerDay))) = 1"
    by (rule fields_on_day[OF m order_refl d1 d])+
qed

text \<open>
  The grid of the cursor \<open>new Date(y, m, 1)\<close>, \<open>F\<close> being the first of the month and \<open>S\<close> the
  Monday on or before it, on a host that keeps on its day each local time that the
  computation asks for: midnight of \<open>F\<close>; day \<open>S\<close> at the time of day read back for midnight of
  \<open>F\<close>, and at midnight; and each of the 42 days from \<open>S\<close> at the time of day read back for
  midnight of \<open>S\<close>.
\<close>

lemma days_stays:
  assumes m: "0 \<le> m" "m \<le> 11"
    and F: "F = MakeDay (MakeFullYear y) m 1"
    and S: "S = mondayOnOrBefore F"
    and kF: "staysOnDay z (F * msPerDay)"
    and k1: "staysOnDay z (S * msPerDay + TimeWithinDay (readBack z (F * msPerDay)))"
    and k2: "staysOnDay z (S * msPerDay)"
  shows "\<exists>u. startOfWeek z (firstOfMonth z (Num y) (Num m)) = DateOf (Num u) \<and> Day (LocalTime z u) = S"
    and "i < 42 \<Longrightarrow>
         staysOnDay z ((S + int i) * msPerDay + TimeWithinDay (readBack z (S * msPerDay))) \<Longrightarrow>
         \<exists>u. days z (firstOfMonth z (Num y) (Num m)) ! i = DateOf (Num u) \<and>
             Day (LocalTime z u) = S + int i"
proof -
  define t0 where "t0 = UTC z (F * msPerDay)"
  note fm = firstOfMonth_stays[OF m kF[unfolded F]]
  have cur: "firstOfMonth z (Num y) (Num m) = DateOf (Num t0)"
    using fm(1) by (simp add: t0_def F)
  have f0: "Day (LocalTime z t0) = F" "YearFromTime (LocalTime z t0) = MakeFullYear y"
    "MonthFromTime (LocalTime z t0) = m"
    using fm(2,3,4) by (simp_all add: t0_def F)
  have first: "newDate z (getFullYear z (DateOf (Num t0))) (getMonth z (DateOf (Num t0)))
                 (Num 1) (Num 0) (Num 0) (Num 0) (Num 0) = DateOf (Num t0)"
  proof -
    have "newDate z (Num (MakeFullYear y)) (Num m) (Num 1) (Num 0) (Num 0) (Num 0) (Num 0)
          = DateOf (Num t0)"
      using staysOnDay_D(1)[OF kF]
      by (simp add: MakeFullYear_idem MakeDate_def MakeTime_def t0_def F)
    then show ?thesis
      by (simp only: getFullYear.simps getMonth.simps f0)
  qed
  have v0: "\<bar>t0\<bar> \<le> 8640000000000000"
    using staysOnDay_D(3)[OF kF] by (simp add: t0_def)
  have S': "S = mondayOnOrBefore (Day (LocalTime z t0))"
    by (simp add: S f0)
  have k1': "staysOnDay z (S * msPerDay + TimeWithinDay (LocalTime z t0))"
    using k1 by (simp add: readBack_def t0_def)
  define s0 where "s0 = UTC z (S * msPerDay)"
  have start: "startOfWeek z (DateOf (Num t0)) = DateOf (Num s0)"
    unfolding s0_def by (rule startOfWeek_stays[OF v0 S' k1' k2])
  have dS: "Day (LocalTime z s0) = S"
    using staysOnDay_D(2)[OF k2] by (simp add: readBack_def s0_def Day_midnight)
  show "\<exists>u. startOfWeek z (firstOfMonth z (Num y) (Num m)) = DateOf (Num u) \<and> Day (LocalTime z u) = S"
    using start dS by (simp add: cur)
  assume i: "i < 42"
    and k: "staysOnDay z ((S + int i) * msPerDay + TimeWithinDay (readBack z (S * msPerDay)))"
  have vs: "\<bar>s0\<bar> \<le> 8640000000000000"
    using staysOnDay_D(3)[OF k2] by (simp add: s0_def)
  have ki: "staysOnDay z ((Day (LocalTime z s0) + int i) * msPerDay + TimeWithinDay (LocalTime z s0))"
    using k by (simp add: dS) (simp add: readBack_def s0_def)
  define u where "u = UTC z ((S + int i) * msPerDay + TimeWithinDay (LocalTime z s0))"
  have cell: "setDate z (copyDate (DateOf (Num s0))) (num_add (getDate z (DateOf (Num s0))) (Num (int i)))
              = DateOf (Num u)"
  proof -
    have "setDate z (DateOf (Num s0)) (Num (DateFromTime (LocalTime z s0) + int i)) = DateOf (Num u)"
      unfolding u_def using setDate_stays[OF ki] by (simp only: dS)
    then show ?thesis
      by (simp only: copyDate_valid[OF vs] getDate.simps num_add.simps)
  qed
  have du: "Day (LocalTime z u) = S + int i"
    using staysOnDay_D(2)[OF ki] by (simp add: readBack_def u_def dS Day_of_day_time)
  have ix: "[0..<42] ! i = i"
    using i nth_upt[of 0 i 42] by (simp del: upt_rec_numeral)
  have "days z (firstOfMonth z (Num y) (Num m)) ! i
        = setDate z (copyDate (DateOf (Num s0))) (num_add (getDate z (DateOf (Num s0))) (Num (int i)))"
    unfolding days_def Let_def cur first start
    using i nth_map[of i "[0..<42]"] ix by (simp del: upt_rec_numeral)
  then show "\<exists>u. days z (firstOfMonth z (Num y) (Num m)) ! i = DateOf (Num u) \<and>
                 Day (LocalTime z u) = S + int i"
    using cell du by simp
qed

text \<open>
  \<open>startOfWeek\<close> of a \<open>Date\<close> whose local time is \<open>c\<close>, \<open>M\<close> being the Monday on or before the
  day of \<open>c\<close>, on a host that keeps day \<open>M\<close> at the time of day of \<open>c\<close>, and midnight of \<open>M\<close>, on
  their day.
\<close>

lemma startOfWeek_monday:
  assumes v: "\<bar>t\<bar> \<le> 8640000000000000"
    and M: "M = Day (LocalTime z t) - (WeekDay (LocalTime z t) + 6) mod 7"
    and k1: "staysOnDay z (M * msPerDay + TimeWithinDay (LocalTime z t))"
    and k2: "staysOnDay z (M * msPerDay)"
  shows "\<exists>u. startOfWeek z (DateOf (Num t)) = DateOf (Num u) \<and> Day (LocalTime z u) = M \<and>
             WeekDay (LocalTime z u) = 1"
proof -
  have Mm: "M = mondayOnOrBefore (Day (LocalTime z t))"
    by (simp add: M mondayOnOrBefore_def WeekDay_def)
  have start: "startOfWeek z (DateOf (Num t)) = DateOf (Num (UTC z (M * msPerDay)))"
    by (rule startOfWeek_stays[OF v Mm k1 k2])
  have dS: "Day (LocalTime z (UTC z (M * msPerDay))) = M"
    using staysOnDay_D(2)[OF k2] by (simp add: readBack_def Day_midnight)
  have "WeekDay (LocalTime z (UTC z (M * msPerDay))) = 1"
    using mondayOnOrBefore_props(1)[of "Day (LocalTime z t)", folded Mm]
    by (simp add: WeekDay_def dS)
  then show ?thesis using start dS by simp
qed

lemma all_less_list_all: "(\<forall>i < n. P i) = list_all P [0..<n]"
  by (auto simp: list_all_iff)

lemma nov2018:
  "MakeFullYear 2018 = 2018" "MakeDay 2018 10 1 = 17836" "WeekDay (17836 * msPerDay) = 4"
  "LocalTime saoPaulo2018 1541599200000 = 1541592000000"
  "Day 1541592000000 = 17842" "WeekDay 1541592000000 = 3" "mondayOnOrBefore 17842 = 17840"
  by code_simp+

text \<open>
  Claim C6 says that for every month cursor the grid is 42 consecutive days in 6 rows of
  7 from the Monday on or before the first of the month. Two cursors of the form the page
  builds, \<open>new Date(year, month, 1)\<close>, where the days are not consecutive. On a host with
  the offsets of Pacific/Apia, which had no 30 December 2011, the grid of December 2011
  shows 29 December in cell 31 and 31 December in both cell 32 and cell 33. On a host in
  UTC, the grid of September 275760 starts on the first of the month, a Monday; its cell
  12 is 13 September, the last day a \<open>Date\<close> can hold, and cell 13 is the Invalid Date.
\<close>

theorem weeks_skipped_day_and_range:
  "getFullYear apia2011 (firstOfMonth apia2011 (Num 2011) (Num 11)) = Num 2011 \<and>
   getMonth apia2011 (firstOfMonth apia2011 (Num 2011) (Num 11)) = Num 11 \<and>
   getDate apia2011 (firstOfMonth apia2011 (Num 2011) (Num 11)) = Num 1 \<and>
   map_option (getDate apia2011)
     (gridCell (weeks apia2011 (firstOfMonth apia2011 (Num 2011) (Num 11))) 31) = Some (Num 29) \<and>
   gridCell (weeks apia2011 (firstOfMonth apia2011 (Num 2011) (Num 11))) 32
     = Some (DateOf (Num 1325239200000)) \<and>
   gridCell (weeks apia2011 (firstOfMonth apia2011 (Num 2011) (Num 11))) 33
     = Some (DateOf (Num 1325239200000)) \<and>
   getDate apia2011 (DateOf (Num 1325239200000)) = Num 31 \<and>
   getFullYear zoneUTC (firstOfMonth zoneUTC (Num 275760) (Num 8)) = Num 275760 \<and>
   getMonth zoneUTC (firstOfMonth zoneUTC (Num 275760) (Num 8)) = Num 8 \<and>
   getDate zoneUTC (firstOfMonth zoneUTC (Num 275760) (Num 8)) = Num 1 \<and>
   gridCell (weeks zoneUTC (firstOfMonth zoneUTC (Num 275760) (Num 8))) 0
     = Some (firstOfMonth zoneUTC (Num 275760) (Num 8)) \<and>
   gridCell (weeks zoneUTC (firstOfMonth zoneUTC (Num 275760) (Num 8))) 12
     = Some (DateOf (Num 8640000000000000)) \<and>
   gridCell (weeks zoneUTC (firstOfMonth zoneUTC (Num 275760) (Num 8))) 13 = Some (DateOf NaN)"
  by code_simp

text \<open>
  Claim C6, amended. For every cursor, valid or not, and on every host \<open>weeks\<close> returns 6
  rows of 7 cells. Let the cursor be \<open>new Date(y, m, 1)\<close> with a month index \<open>m\<close> from 0 to
  11, as the page builds it, let \<open>F\<close> be the day number of the first of that month (of year
  \<open>1900 + y\<close> when \<open>y\<close> is from 0 to 99) and \<open>S\<close> the day \<open>(weekday + 6) mod 7\<close> days before \<open>F\<close>,
  Sunday being weekday 0. If the host keeps on its own day each local time that the
  computation asks for (midnight of \<open>F\<close>; day \<open>S\<close> at the time of day it reads back for
  midnight of \<open>F\<close>, and at midnight; each of the 42 days from \<open>S\<close> at the time of day it reads
  back for midnight of \<open>S\<close>), then the cursor is the first of its month, \<open>S\<close> is a Monday
  within the seven days up to \<open>F\<close>, \<open>startOfWeek\<close> of the cursor is on day \<open>S\<close>, and cell \<open>i\<close> of
  the grid is a valid \<open>Date\<close> on local day \<open>S + i\<close>, for each \<open>i\<close> below 42. And for every \<open>Date\<close>
  \<open>d\<close>, a Wednesday in particular, with \<open>M\<close> the day \<open>(weekday + 6) mod 7\<close> days before the local
  day of \<open>d\<close>: on a host that keeps day \<open>M\<close> at the time of day of \<open>d\<close>, and midnight of \<open>M\<close>, on
  their day, \<open>startOfWeek d\<close> is on day \<open>M\<close>, a Monday.
\<close>

theorem weeks_grid:
  "(\<exists>rows. weeks z c = Some rows \<and> length rows = 6 \<and> (\<forall>r \<in> set rows. length r = 7)) \<and>
   (0 \<le> m \<and> m \<le> 11 \<and>
    F = MakeDay (MakeFullYear y) m 1 \<and>
    S = F - (WeekDay (F * msPerDay) + 6) mod 7 \<and>
    staysOnDay z (F * msPerDay) \<and>
    staysOnDay z (S * msPerDay + TimeWithinDay (readBack z (F * msPerDay))) \<and>
    staysOnDay z (S * msPerDay) \<and>
    (\<forall>i < 42. staysOnDay z ((S + int i) * msPerDay + TimeWithinDay (readBack z (S * msPerDay))))
    \<longrightarrow>
      getFullYear z (firstOfMonth z (Num y) (Num m)) = Num (MakeFullYear y) \<and>
      getMonth z (firstOfMonth z (Num y) (Num m)) = Num m \<and>
      getDate z (firstOfMonth z (Num y) (Num m)) = Num 1 \<and>
      S \<le> F \<and> F < S + 7 \<and> WeekDay (S * msPerDay) = 1 \<and>
      (\<exists>u. startOfWeek z (firstOfMonth z (Num y) (Num m)) = DateOf (Num u) \<and>
           Day (LocalTime z u) = S) \<and>
      (\<forall>i < 42. \<exists>u. gridCell (weeks z (firstOfMonth z (Num y) (Num m))) i = Some (DateOf (Num u)) \<and>
                     Day (LocalTime z u) = S + int i)) \<and>
   (timeValue d = Num t \<and> \<bar>t\<bar> \<le> 8640000000000000 \<and>
    M = Day (LocalTime z t) - (WeekDay (LocalTime z t) + 6) mod 7 \<and>
    staysOnDay z (M * msPerDay + TimeWithinDay (LocalTime z t)) \<and>
    staysOnDay z (M * msPerDay)
    \<longrightarrow>
      (\<exists>u. startOfWeek z d = DateOf (Num u) \<and> Day (LocalTime z u) = M) \<and>
      getDay z (startOfWeek z d) = Num 1)"
  (is "?shape \<and> (?H2 \<longrightarrow> ?C2) \<and> (?H3 \<longrightarrow> ?C3)")
proof -
  have p1: ?shape
    using weeks_shape[of z c] by blast
  have p2: "?H2 \<longrightarrow> ?C2"
  proof (rule impI)
    assume a: ?H2
    have m: "0 \<le> m" "m \<le> 11" using a by blast+
    have Fd: "F = MakeDay (MakeFullYear y) m 1" using a by blast
    have Sd: "S = F - (WeekDay (F * msPerDay) + 6) mod 7" using a by blast
    have kF: "staysOnDay z (F * msPerDay)" using a by blast
    have k1: "staysOnDay z (S * msPerDay + TimeWithinDay (readBack z (F * msPerDay)))"
      using a by blast
    have k2: "staysOnDay z (S * msPerDay)" using a by blast
    have k: "\<forall>i < 42. staysOnDay z ((S + int i) * msPerDay + TimeWithinDay (readBack z (S * msPerDay)))"
      using a by blast
    have Sm: "S = mondayOnOrBefore F"
      by (simp add: Sd mondayOnOrBefore_def WeekDay_def Day_midnight)
    have SF: "S \<le> F" "F < S + 7" "(S + 4) mod 7 = 1"
      using mondayOnOrBefore_props[of F] by (simp_all add: Sm)
    note fm = firstOfMonth_stays[OF m kF[unfolded Fd]]
    note ds = days_stays[OF m Fd Sm kF k1 k2]
    have cells: "\<forall>i < 42. \<exists>u. gridCell (weeks z (firstOfMonth z (Num y) (Num m))) i
                                = Some (DateOf (Num u)) \<and> Day (LocalTime z u) = S + int i"
      using ds(2) k by (simp add: gridCell_weeks)
    have mon: "WeekDay (S * msPerDay) = 1"
      using SF(3) by (simp add: WeekDay_def Day_midnight)
    show ?C2
      using fm(3,4,5) SF(1,2) mon ds(1) cells by (simp add: fm(1))
  qed
  have p3: "?H3 \<longrightarrow> ?C3"
  proof (rule impI)
    assume a: ?H3
    then have d: "d = DateOf (Num t)" by (cases d) simp
    have v: "\<bar>t\<bar> \<le> 8640000000000000" using a by blast
    have M: "M = Day (LocalTime z t) - (WeekDay (LocalTime z t) + 6) mod 7" using a by blast
    have k1: "staysOnDay z (M * msPerDay + TimeWithinDay (LocalTime z t))" using a by blast
    have k2: "staysOnDay z (M * msPerDay)" using a by blast
    obtain u where u: "startOfWeek z (DateOf (Num t)) = DateOf (Num u)"
        "Day (LocalTime z u) = M" "WeekDay (LocalTime z u) = 1"
      using startOfWeek_monday[OF v M k1 k2] by blast
    show ?C3
      using u by (simp add: d)
  qed
  show ?thesis
    by (rule conjI[OF p1 conjI[OF p2 p3]])
qed

text \<open>
  November 2018 on a host with the offsets of America/Sao_Paulo, where the midnight that
  begins 4 November is skipped: the first of the month is a Thursday (day 17836), the grid
  starts on Monday 29 October (day 17833), and cell 6 is 4 November (day 17839) at 01:00.
  Wednesday 7 November at noon is sent to Monday 5 November (day 17840).
\<close>

theorem weeks_grid_witness:
  "getFullYear saoPaulo2018 (firstOfMonth saoPaulo2018 (Num 2018) (Num 10)) = Num 2018 \<and>
   getMonth saoPaulo2018 (firstOfMonth saoPaulo2018 (Num 2018) (Num 10)) = Num 10 \<and>
   getDate saoPaulo2018 (firstOfMonth saoPaulo2018 (Num 2018) (Num 10)) = Num 1 \<and>
   (\<exists>u. startOfWeek saoPaulo2018 (firstOfMonth saoPaulo2018 (Num 2018) (Num 10)) = DateOf (Num u) \<and>
        Day (LocalTime saoPaulo2018 u) = 17833) \<and>
   (\<exists>u. gridCell (weeks saoPaulo2018 (firstOfMonth saoPaulo2018 (Num 2018) (Num 10))) 6
          = Some (DateOf (Num u)) \<and>
        Day (LocalTime saoPaulo2018 u) = 17839) \<and>
   gridCell (weeks saoPaulo2018 (firstOfMonth saoPaulo2018 (Num 2018) (Num 10))) 6
     = Some (DateOf (Num 1541300400000)) \<and>
   TimeWithinDay (LocalTime saoPaulo2018 1541300400000) = msPerHour \<and>
   getDay saoPaulo2018 (DateOf (Num 1541599200000)) = Num 3 \<and>
   (\<exists>u. startOfWeek saoPaulo2018 (DateOf (Num 1541599200000)) = DateOf (Num u) \<and>
        Day (LocalTime saoPaulo2018 u) = 17840) \<and>
   getDay saoPaulo2018 (startOfWeek saoPaulo2018 (DateOf (Num 1541599200000))) = Num 1"
proof -
  have g: "staysOnDay saoPaulo2018 (17836 * msPerDay)"
          "staysOnDay saoPaulo2018 (17833 * msPerDay + TimeWithinDay (readBack saoPaulo2018 (17836 * msPerDay)))"
          "staysOnDay saoPaulo2018 (17833 * msPerDay)"
          "list_all (\<lambda>i. staysOnDay saoPaulo2018
              ((17833 + int i) * msPerDay + TimeWithinDay (readBack saoPaulo2018 (17833 * msPerDay))))
             [0..<42]"
          "staysOnDay saoPaulo2018 (17840 * msPerDay + TimeWithinDay (LocalTime saoPaulo2018 1541599200000))"
          "staysOnDay saoPaulo2018 (17840 * msPerDay)"
    by code_simp+
  have h2: "0 \<le> (10::int) \<and> (10::int) \<le> 11 \<and>
            17836 = MakeDay (MakeFullYear 2018) 10 1 \<and>
            17833 = 17836 - (WeekDay (17836 * msPerDay) + 6) mod 7 \<and>
            staysOnDay saoPaulo2018 (17836 * msPerDay) \<and>
            staysOnDay saoPaulo2018
              (17833 * msPerDay + TimeWithinDay (readBack saoPaulo2018 (17836 * msPerDay))) \<and>
            staysOnDay saoPaulo2018 (17833 * msPerDay) \<and>
            (\<forall>i < 42. staysOnDay saoPaulo2018
               ((17833 + int i) * msPerDay + TimeWithinDay (readBack saoPaulo2018 (17833 * msPerDay))))"
    using g(1-3) g(4)[folded all_less_list_all] by (simp add: nov2018)
  have h3: "timeValue (DateOf (Num 1541599200000)) = Num 1541599200000 \<and>
            \<bar>1541599200000 :: int\<bar> \<le> 8640000000000000 \<and>
            17840 = Day (LocalTime saoPaulo2018 1541599200000)
                    - (WeekDay (LocalTime saoPaulo2018 1541599200000) + 6) mod 7 \<and>
            staysOnDay saoPaulo2018
              (17840 * msPerDay + TimeWithinDay (LocalTime saoPaulo2018 1541599200000)) \<and>
            staysOnDay saoPaulo2018 (17840 * msPerDay)"
    using g(5,6) by (simp add: nov2018)
  note w = weeks_grid[where z = saoPaulo2018 and m = 10 and y = 2018 and F = 17836
                        and S = 17833 and d = "DateOf (Num 1541599200000)" and t = 1541599200000
                        and M = 17840]
  have c2: "getFullYear saoPaulo2018 (firstOfMonth saoPaulo2018 (Num 2018) (Num 10)) = Num 2018 \<and>
      getMonth saoPaulo2018 (firstOfMonth saoPaulo2018 (Num 2018) (Num 10)) = Num 10 \<and>
      getDate saoPaulo2018 (firstOfMonth saoPaulo2018 (Num 2018) (Num 10)) = Num 1 \<and>
      (\<exists>u. startOfWeek saoPaulo2018 (firstOfMonth saoPaulo2018 (Num 2018) (Num 10)) = DateOf (Num u) \<and>
           Day (LocalTime saoPaulo2018 u) = 17833)"
    using w h2 by (simp add: nov2018(1))
  have "\<forall>i < 42. \<exists>u. gridCell (weeks saoPaulo2018 (firstOfMonth saoPaulo2018 (Num 2018) (Num 10))) i
                          = Some (DateOf (Num u)) \<and>
                        Day (LocalTime saoPaulo2018 u) = 17833 + int i"
    using w h2 by (simp add: nov2018(1))
  then have c6: "\<exists>u. gridCell (weeks saoPaulo2018 (firstOfMonth saoPaulo2018 (Num 2018) (Num 10))) 6
                       = Some (DateOf (Num u)) \<and>
                     Day (LocalTime saoPaulo2018 u) = 17839"
    by (rule allE[of _ 6]) simp
  have c3: "(\<exists>u. startOfWeek saoPaulo2018 (DateOf (Num 1541599200000)) = DateOf (Num u) \<and>
        Day (LocalTime saoPaulo2018 u) = 17840) \<and>
     getDay saoPaulo2018 (startOfWeek saoPaulo2018 (DateOf (Num 1541599200000))) = Num 1"
    using w h3 by simp
  have e: "gridCell (weeks saoPaulo2018 (firstOfMonth saoPaulo2018 (Num 2018) (Num 10))) 6
             = Some (DateOf (Num 1541300400000))"
          "TimeWithinDay (LocalTime saoPaulo2018 1541300400000) = msPerHour"
          "getDay saoPaulo2018 (DateOf (Num 1541599200000)) = Num 3"
    by code_simp+
  show ?thesis
    using c2 c6 c3 e by simp
qed

section \<open>Month navigation\<close>

lemma newDate_clipped:
  "newDate z a b (Num 1) (Num 0) (Num 0) (Num 0) (Num 0) = DateOf NaN \<or>
   (\<exists>u. newDate z a b (Num 1) (Num 0) (Num 0) (Num 0) (Num 0) = DateOf (Num u) \<and>
        \<bar>u\<bar> \<le> 8640000000000000)"
  by (cases a; cases b) (simp_all add: TimeClip_def)

text \<open>
  \<open>addMonths\<close> from a \<open>Date\<close> whose day of the month exists in the target month \<open>mn\<close> of year
  \<open>ym\<close>, on a host that keeps on its day the two local times that are asked for: the
  cursor's day of the month and time of day in the target month, and midnight of day 1 of
  the target month.
\<close>

lemma addMonths_stays:
  assumes v: "\<bar>t\<bar> \<le> 8640000000000000"
    and ym: "ym = YearFromTime (LocalTime z t) + (MonthFromTime (LocalTime z t) + delta) div 12"
    and mn: "mn = (MonthFromTime (LocalTime z t) + delta) mod 12"
    and dd: "DateFromTime (LocalTime z t) \<le> daysInMonth ym (mn + 1)"
    and yy: "ym < 0 \<or> 99 < ym"
    and k1: "staysOnDay z (MakeDay ym mn (DateFromTime (LocalTime z t)) * msPerDay
                           + TimeWithinDay (LocalTime z t))"
    and k2: "staysOnDay z (MakeDay ym mn 1 * msPerDay)"
  shows "addMonths z (DateOf (Num t)) (Num delta) = DateOf (Num (UTC z (MakeDay ym mn 1 * msPerDay)))"
    and "Day (LocalTime z (UTC z (MakeDay ym mn 1 * msPerDay))) = MakeDay ym mn 1"
    and "YearFromTime (LocalTime z (UTC z (MakeDay ym mn 1 * msPerDay))) = ym"
    and "MonthFromTime (LocalTime z (UTC z (MakeDay ym mn 1 * msPerDay))) = mn"
    and "DateFromTime (LocalTime z (UTC z (MakeDay ym mn 1 * msPerDay))) = 1"
proof -
  define c where "c = LocalTime z t"
  define lt1 where "lt1 = MakeDate (MakeDay ym mn (DateFromTime c)) (TimeWithinDay c)"
  have mr: "0 \<le> mn" "mn \<le> 11" by (simp_all add: mn)
  have d1: "1 \<le> DateFromTime c" by (rule DateFromTime_ge1)
  have dm: "DateFromTime c \<le> daysInMonth ym (mn + 1)" using dd by (simp add: c_def)
  have D1: "Day lt1 = MakeDay ym mn (DateFromTime c)"
    unfolding lt1_def by (rule Day_MakeDate(1)[OF TimeWithinDay_range])
  have k1': "staysOnDay z lt1"
    using k1 by (simp add: lt1_def MakeDate_def c_def)
  have md: "MakeDay (YearFromTime c) (MonthFromTime c + delta) (DateFromTime c)
            = MakeDay ym mn (DateFromTime c)"
    unfolding ym mn c_def by (rule MakeDay_normalise)
  have sm: "setMonth z (DateOf (Num t)) (Num (MonthFromTime c + delta)) = DateOf (Num (UTC z lt1))"
    using staysOnDay_D(1)[OF k1'] by (simp add: c_def[symmetric] md lt1_def)
  have D1': "Day (LocalTime z (UTC z lt1)) = MakeDay ym mn (DateFromTime c)"
    using staysOnDay_D(2)[OF k1'] by (simp add: readBack_def D1)
  have f1: "YearFromTime (LocalTime z (UTC z lt1)) = ym" "MonthFromTime (LocalTime z (UTC z lt1)) = mn"
    by (rule fields_on_day[OF mr d1 dm D1'])+
  have one: "(1::int) \<le> daysInMonth ym (mn + 1)" by (rule daysInMonth_ge)
  have fy: "MakeFullYear ym = ym" using yy by (auto simp: MakeFullYear_def)
  have nd: "newDate z (Num ym) (Num mn) (Num 1) (Num 0) (Num 0) (Num 0) (Num 0)
            = DateOf (Num (UTC z (MakeDay ym mn 1 * msPerDay)))"
    using staysOnDay_D(1)[OF k2] by (simp add: fy MakeDate_def MakeTime_def)
  have g: "num_add (getMonth z (DateOf (Num t))) (Num delta) = Num (MonthFromTime c + delta)"
    by (simp add: c_def)
  show "addMonths z (DateOf (Num t)) (Num delta) = DateOf (Num (UTC z (MakeDay ym mn 1 * msPerDay)))"
    unfolding addMonths_def Let_def copyDate_valid[OF v] g sm
    using nd by (simp only: getFullYear.simps getMonth.simps f1)
  show D2: "Day (LocalTime z (UTC z (MakeDay ym mn 1 * msPerDay))) = MakeDay ym mn 1"
    using staysOnDay_D(2)[OF k2] by (simp add: readBack_def Day_midnight)
  show "YearFromTime (LocalTime z (UTC z (MakeDay ym mn 1 * msPerDay))) = ym"
    and "MonthFromTime (LocalTime z (UTC z (MakeDay ym mn 1 * msPerDay))) = mn"
    and "DateFromTime (LocalTime z (UTC z (MakeDay ym mn 1 * msPerDay))) = 1"
    by (rule fields_on_day[OF mr order_refl one D2])+
qed

lemma mar2012:
  "LocalTime havana2012 1330578000000 = 1330560000000"
  "YearFromTime 1330560000000 = 2012" "MonthFromTime 1330560000000 = 2"
  "DateFromTime 1330560000000 = 1" "MakeDay 2012 3 1 = 15431" "daysInMonth 2012 4 = 30"
  by code_simp+

text \<open>
  Claim C7 says that for every cursor date and every delta \<open>addMonths\<close> returns day 1 of the
  month shifted by delta, also from day 31, and always a valid date. Four inputs where
  it does not. On a host in UTC: from 31 January 2025 one month forward gives March 2025,
  \<open>setMonth\<close> having carried 31 February into March before the day is reset; from
  1 January of year 100 one month back gives December 1999, the constructor reading the
  year 99 as 1999; from 1 September 275760 one month forward leaves the range of \<open>Date\<close>
  and gives the Invalid Date. On a host with the offsets of Pacific/Kiritimati, which had
  no 31 December 1994: from 31 January 1995 one month back gives January 1995 again,
  \<open>setMonth\<close> having landed on 1 January.
\<close>

theorem addMonths_skips_and_wraps:
  "getFullYear zoneUTC (newDate zoneUTC (Num 2025) (Num 0) (Num 31) (Num 0) (Num 0) (Num 0) (Num 0))
     = Num 2025 \<and>
   getMonth zoneUTC (newDate zoneUTC (Num 2025) (Num 0) (Num 31) (Num 0) (Num 0) (Num 0) (Num 0))
     = Num 0 \<and>
   getDate zoneUTC (newDate zoneUTC (Num 2025) (Num 0) (Num 31) (Num 0) (Num 0) (Num 0) (Num 0))
     = Num 31 \<and>
   getFullYear zoneUTC
     (addMonths zoneUTC (newDate zoneUTC (Num 2025) (Num 0) (Num 31) (Num 0) (Num 0) (Num 0) (Num 0))
        (Num 1)) = Num 2025 \<and>
   getMonth zoneUTC
     (addMonths zoneUTC (newDate zoneUTC (Num 2025) (Num 0) (Num 31) (Num 0) (Num 0) (Num 0) (Num 0))
        (Num 1)) = Num 2 \<and>
   getFullYear zoneUTC (firstOfMonth zoneUTC (Num 100) (Num 0)) = Num 100 \<and>
   getMonth zoneUTC (firstOfMonth zoneUTC (Num 100) (Num 0)) = Num 0 \<and>
   getDate zoneUTC (firstOfMonth zoneUTC (Num 100) (Num 0)) = Num 1 \<and>
   getFullYear zoneUTC (addMonths zoneUTC (firstOfMonth zoneUTC (Num 100) (Num 0)) (Num (- 1)))
     = Num 1999 \<and>
   getMonth zoneUTC (addMonths zoneUTC (firstOfMonth zoneUTC (Num 100) (Num 0)) (Num (- 1)))
     = Num 11 \<and>
   getFullYear zoneUTC (firstOfMonth zoneUTC (Num 275760) (Num 8)) = Num 275760 \<and>
   getMonth zoneUTC (firstOfMonth zoneUTC (Num 275760) (Num 8)) = Num 8 \<and>
   getDate zoneUTC (firstOfMonth zoneUTC (Num 275760) (Num 8)) = Num 1 \<and>
   addMonths zoneUTC (firstOfMonth zoneUTC (Num 275760) (Num 8)) (Num 1) = DateOf NaN \<and>
   getFullYear kiritimati1994
     (newDate kiritimati1994 (Num 1995) (Num 0) (Num 31) (Num 0) (Num 0) (Num 0) (Num 0)) = Num 1995 \<and>
   getMonth kiritimati1994
     (newDate kiritimati1994 (Num 1995) (Num 0) (Num 31) (Num 0) (Num 0) (Num 0) (Num 0)) = Num 0 \<and>
   getDate kiritimati1994
     (newDate kiritimati1994 (Num 1995) (Num 0) (Num 31) (Num 0) (Num 0) (Num 0) (Num 0)) = Num 31 \<and>
   getFullYear kiritimati1994
     (addMonths kiritimati1994
        (newDate kiritimati1994 (Num 1995) (Num 0) (Num 31) (Num 0) (Num 0) (Num 0) (Num 0))
        (Num (- 1))) = Num 1995 \<and>
   getMonth kiritimati1994
     (addMonths kiritimati1994
        (newDate kiritimati1994 (Num 1995) (Num 0) (Num 31) (Num 0) (Num 0) (Num 0) (Num 0))
        (Num (- 1))) = Num 0"
  by code_simp

text \<open>
  Claim C7, amended. \<open>addMonths\<close> returns a \<open>Date\<close> for every cursor, valid or not, and every
  delta, a number or \<open>NaN\<close>: the Invalid Date, or a time value inside the range of \<open>Date\<close>.
  For a valid cursor and an integer delta, let the target month be month
  \<open>mn = (month + delta) mod 12\<close> of year \<open>ym = year + (month + delta) div 12\<close>. If the
  cursor's day of the month exists in the target month (day 1, which the calendar's
  cursor always is, exists in every month), \<open>ym\<close> is not between 0 and 99, and the host
  keeps on its own day the two local times that are asked for (the cursor's day of the
  month and time of day in the target month; midnight of day 1 of the target month), then
  \<open>addMonths\<close> returns a valid \<open>Date\<close> on day 1 of the target month: its local day is the
  first day of that month, and its year, month and day of the month read \<open>ym\<close>, \<open>mn\<close> and 1.
\<close>

theorem addMonths_first_of_month:
  "(addMonths z c dl = DateOf NaN \<or>
    (\<exists>u. addMonths z c dl = DateOf (Num u) \<and> \<bar>u\<bar> \<le> 8640000000000000)) \<and>
   (timeValue cursor = Num t \<and> \<bar>t\<bar> \<le> 8640000000000000 \<and>
    ym = YearFromTime (LocalTime z t) + (MonthFromTime (LocalTime z t) + delta) div 12 \<and>
    mn = (MonthFromTime (LocalTime z t) + delta) mod 12 \<and>
    DateFromTime (LocalTime z t) \<le> daysInMonth ym (mn + 1) \<and>
    (ym < 0 \<or> 99 < ym) \<and>
    staysOnDay z (MakeDay ym mn (DateFromTime (LocalTime z t)) * msPerDay
                  + TimeWithinDay (LocalTime z t)) \<and>
    staysOnDay z (MakeDay ym mn 1 * msPerDay)
    \<longrightarrow>
      (\<exists>u. addMonths z cursor (Num delta) = DateOf (Num u) \<and>
           Day (LocalTime z u) = MakeDay ym mn 1) \<and>
      getFullYear z (addMonths z cursor (Num delta)) = Num ym \<and>
      getMonth z (addMonths z cursor (Num delta)) = Num mn \<and>
      getDate z (addMonths z cursor (Num delta)) = Num 1)"
  (is "?total \<and> (?H \<longrightarrow> ?C)")
proof -
  have p1: ?total
    unfolding addMonths_def Let_def by (rule newDate_clipped)
  have p2: "?H \<longrightarrow> ?C"
  proof (rule impI)
    assume a: ?H
    then have cur: "cursor = DateOf (Num t)" by (cases cursor) simp
    have v: "\<bar>t\<bar> \<le> 8640000000000000" using a by blast
    have ym: "ym = YearFromTime (LocalTime z t) + (MonthFromTime (LocalTime z t) + delta) div 12"
      using a by blast
    have mn: "mn = (MonthFromTime (LocalTime z t) + delta) mod 12" using a by blast
    have dd: "DateFromTime (LocalTime z t) \<le> daysInMonth ym (mn + 1)" using a by blast
    have yy: "ym < 0 \<or> 99 < ym" using a by blast
    have k1: "staysOnDay z (MakeDay ym mn (DateFromTime (LocalTime z t)) * msPerDay
                            + TimeWithinDay (LocalTime z t))"
      using a by blast
    have k2: "staysOnDay z (MakeDay ym mn 1 * msPerDay)" using a by blast
    note r = addMonths_stays[OF v ym mn dd yy k1 k2]
    show ?C
      using r(2-5) by (simp add: cur r(1))
  qed
  show ?thesis
    by (rule conjI[OF p1 p2])
qed

text \<open>
  March 2012 on a host with the offsets of America/Havana, where the midnight that begins
  1 April is skipped: one month forward from 1 March gives 1 April (day 15431), at 01:00.
\<close>

theorem addMonths_first_of_month_witness:
  "firstOfMonth havana2012 (Num 2012) (Num 2) = DateOf (Num 1330578000000) \<and>
   (\<exists>u. addMonths havana2012 (DateOf (Num 1330578000000)) (Num 1) = DateOf (Num u) \<and>
        Day (LocalTime havana2012 u) = 15431) \<and>
   getFullYear havana2012 (addMonths havana2012 (DateOf (Num 1330578000000)) (Num 1)) = Num 2012 \<and>
   getMonth havana2012 (addMonths havana2012 (DateOf (Num 1330578000000)) (Num 1)) = Num 3 \<and>
   getDate havana2012 (addMonths havana2012 (DateOf (Num 1330578000000)) (Num 1)) = Num 1 \<and>
   addMonths havana2012 (DateOf (Num 1330578000000)) (Num 1) = DateOf (Num 1333256400000) \<and>
   TimeWithinDay (LocalTime havana2012 1333256400000) = msPerHour"
proof -
  have g: "staysOnDay havana2012 (15431 * msPerDay + TimeWithinDay 1330560000000)"
          "staysOnDay havana2012 (15431 * msPerDay)"
    by code_simp+
  have h: "timeValue (DateOf (Num 1330578000000)) = Num 1330578000000 \<and>
           \<bar>1330578000000 :: int\<bar> \<le> 8640000000000000 \<and>
           2012 = YearFromTime (LocalTime havana2012 1330578000000)
                  + (MonthFromTime (LocalTime havana2012 1330578000000) + 1) div 12 \<and>
           3 = (MonthFromTime (LocalTime havana2012 1330578000000) + 1) mod 12 \<and>
           DateFromTime (LocalTime havana2012 1330578000000) \<le> daysInMonth 2012 (3 + 1) \<and>
           ((2012 :: int) < 0 \<or> 99 < (2012 :: int)) \<and>
           staysOnDay havana2012
             (MakeDay 2012 3 (DateFromTime (LocalTime havana2012 1330578000000)) * msPerDay
              + TimeWithinDay (LocalTime havana2012 1330578000000)) \<and>
           staysOnDay havana2012 (MakeDay 2012 3 1 * msPerDay)"
    using g by (simp add: mar2012)
  note w = addMonths_first_of_month[where z = havana2012 and cursor = "DateOf (Num 1330578000000)"
             and t = 1330578000000 and ym = 2012 and mn = 3 and delta = 1]
  have c: "(\<exists>u. addMonths havana2012 (DateOf (Num 1330578000000)) (Num 1) = DateOf (Num u) \<and>
        Day (LocalTime havana2012 u) = 15431) \<and>
     getFullYear havana2012 (addMonths havana2012 (DateOf (Num 1330578000000)) (Num 1)) = Num 2012 \<and>
     getMonth havana2012 (addMonths havana2012 (DateOf (Num 1330578000000)) (Num 1)) = Num 3 \<and>
     getDate havana2012 (addMonths havana2012 (DateOf (Num 1330578000000)) (Num 1)) = Num 1"
    using w h by (simp add: mar2012(5))
  have e: "firstOfMonth havana2012 (Num 2012) (Num 2) = DateOf (Num 1330578000000)"
          "addMonths havana2012 (DateOf (Num 1330578000000)) (Num 1) = DateOf (Num 1333256400000)"
          "TimeWithinDay (LocalTime havana2012 1333256400000) = msPerHour"
    by code_simp+
  show ?thesis
    using c e(1,3) by (simp add: e(2)[symmetric])
qed

section \<open>Day keys of local date-time strings\<close>

lemma isDigit_not_sep:
  assumes "isDigit c"
  shows "c \<noteq> CHR ''T''" "c \<noteq> CHR ''-''" "c \<noteq> CHR '':''" "c \<noteq> CHR ''+''" "\<not> isWhiteSpace c"
  using assms by (auto simp: isDigit_def isWhiteSpace_def)

lemma digitVal_range: "isDigit c \<Longrightarrow> 0 \<le> digitVal c \<and> digitVal c \<le> 9"
  by (auto simp: isDigit_def digitVal_def)

lemma digitChar_digitVal: "isDigit c \<Longrightarrow> digitChar (nat (digitVal c)) = c"
proof -
  assume "isDigit c"
  then have "48 + nat (int (of_char c) - 48) = (of_char c :: nat)"
    unfolding isDigit_def by arith
  then show ?thesis by (simp add: digitChar_def digitVal_def)
qed

lemma digitChar_0: "digitChar 0 = CHR ''0''"
  by code_simp

lemma natToStr_small: "n < 10 \<Longrightarrow> natToStr n = [digitChar n]"
  by (simp add: natToStr.simps)

lemma natToStr_snoc: "0 < a \<Longrightarrow> b < 10 \<Longrightarrow> natToStr (10 * a + b) = natToStr a @ [digitChar b]"
  by (subst natToStr.simps) simp

lemma parseInt10_digits:
  assumes "ds \<noteq> []" "list_all isDigit ds"
  shows "parseInt10 ds = Num (digitsVal ds)"
proof -
  obtain c cs where ds: "ds = c # cs" using assms(1) by (cases ds) auto
  have c: "isDigit c" using assms(2) ds by simp
  have w: "dropWhile isWhiteSpace ds = ds"
    using isDigit_not_sep(5)[OF c] by (simp add: ds)
  have t: "takeWhile isDigit ds = ds"
    using assms(2) by (simp add: list_all_iff)
  show ?thesis
    unfolding parseInt10_def w Let_def
    using isDigit_not_sep(2,4)[OF c] t assms(1) by (simp add: ds)
qed

lemma digitsVal_2: "digitsVal [a, b] = 10 * digitVal a + digitVal b"
  by (simp add: digitsVal_def)

lemma digitsVal_4:
  "digitsVal [a, b, c, d] = 10 * (10 * (10 * digitVal a + digitVal b) + digitVal c) + digitVal d"
  by (simp add: digitsVal_def)

lemma numToString_nat: "numToString (Num (int n)) = natToStr n"
  by simp

lemma fmt2:
  assumes "isDigit a" "isDigit b"
  shows "padStart0 2 (numToString (Num (digitsVal [a, b]))) = [a, b]"
proof -
  define x where "x = nat (digitVal a)"
  define y where "y = nat (digitVal b)"
  have r: "x < 10" "y < 10"
    unfolding x_def y_def
    using digitVal_range[OF assms(1)] digitVal_range[OF assms(2)] by arith+
  have v: "digitsVal [a, b] = int (10 * x + y)"
    using digitVal_range[OF assms(1)] digitVal_range[OF assms(2)]
    by (simp add: digitsVal_2 x_def y_def)
  have ch: "digitChar x = a" "digitChar y = b"
    using digitChar_digitVal assms by (simp_all add: x_def y_def)
  show ?thesis
  proof (cases "x = 0")
    case True
    then have "natToStr (10 * x + y) = [b]"
      using r ch by (simp add: natToStr_small)
    moreover have "a = CHR ''0''"
      using ch(1) True by (simp add: digitChar_0)
    ultimately show ?thesis
      unfolding v numToString_nat by (simp add: padStart0_def)
  next
    case False
    then have "natToStr (10 * x + y) = [a, b]"
      using r ch by (simp add: natToStr_snoc natToStr_small)
    then show ?thesis
      unfolding v numToString_nat by (simp add: padStart0_def)
  qed
qed

lemma fmt4:
  assumes "isDigit a" "isDigit b" "isDigit c" "isDigit d" "1000 \<le> digitsVal [a, b, c, d]"
  shows "numToString (Num (digitsVal [a, b, c, d])) = [a, b, c, d]"
proof -
  define x where "x = nat (digitVal a)"
  define y where "y = nat (digitVal b)"
  define z where "z = nat (digitVal c)"
  define w where "w = nat (digitVal d)"
  note rg = digitVal_range[OF assms(1)] digitVal_range[OF assms(2)]
            digitVal_range[OF assms(3)] digitVal_range[OF assms(4)]
  have r: "x < 10" "y < 10" "z < 10" "w < 10"
    unfolding x_def y_def z_def w_def using rg by arith+
  have v: "digitsVal [a, b, c, d] = int (10 * (10 * (10 * x + y) + z) + w)"
    using rg by (simp add: digitsVal_4 x_def y_def z_def w_def)
  have x0: "0 < x"
  proof (rule ccontr)
    assume "\<not> 0 < x"
    then have "10 * (10 * (10 * x + y) + z) + w = 100 * y + 10 * z + w" by simp
    then show False using assms(5) r unfolding v by linarith
  qed
  have ch: "digitChar x = a" "digitChar y = b" "digitChar z = c" "digitChar w = d"
    using digitChar_digitVal assms(1-4) by (simp_all add: x_def y_def z_def w_def)
  have p1: "0 < 10 * x + y" and p2: "0 < 10 * (10 * x + y) + z"
    using x0 by simp_all
  have "natToStr (10 * (10 * (10 * x + y) + z) + w)
        = natToStr (10 * (10 * x + y) + z) @ [digitChar w]"
    by (rule natToStr_snoc[OF p2 r(4)])
  also have "natToStr (10 * (10 * x + y) + z) = natToStr (10 * x + y) @ [digitChar z]"
    by (rule natToStr_snoc[OF p1 r(3)])
  also have "natToStr (10 * x + y) = natToStr x @ [digitChar y]"
    by (rule natToStr_snoc[OF x0 r(2)])
  also have "natToStr x = [digitChar x]"
    by (rule natToStr_small[OF r(1)])
  finally have "natToStr (10 * (10 * (10 * x + y) + z) + w) = [a, b, c, d]"
    by (simp add: ch)
  then show ?thesis unfolding v numToString_nat .
qed


lemma num_or_zero: "num_or (Some (Num n)) (Num 0) = Num n"
  by simp

lemma num_or_nonzero: "n \<noteq> 0 \<Longrightarrow> num_or (Some (Num n)) dflt = Num n"
  by simp

lemma MakeTime_range:
  assumes "0 \<le> h" "h \<le> 23" "0 \<le> n" "n \<le> 59"
  shows "0 \<le> MakeTime h n 0 0" and "MakeTime h n 0 0 < msPerDay"
  using assms by (simp_all add: MakeTime_def msPerDay_def msPerHour_def msPerMinute_def)

lemma dateKey_explicit:
  assumes dg: "isDigit y1" "isDigit y2" "isDigit y3" "isDigit y4" "isDigit m1" "isDigit m2"
              "isDigit d1" "isDigit d2" "isDigit h1" "isDigit h2" "isDigit n1" "isDigit n2"
    and Y: "1000 \<le> digitsVal [y1, y2, y3, y4]"
    and M: "1 \<le> digitsVal [m1, m2]" "digitsVal [m1, m2] \<le> 12"
    and D: "1 \<le> digitsVal [d1, d2]"
           "digitsVal [d1, d2] \<le> daysInMonth (digitsVal [y1, y2, y3, y4]) (digitsVal [m1, m2])"
    and H: "digitsVal [h1, h2] \<le> 23" and N: "digitsVal [n1, n2] \<le> 59"
    and K: "staysOnDay z (MakeDate (MakeDay (digitsVal [y1, y2, y3, y4]) (digitsVal [m1, m2] - 1)
                                            (digitsVal [d1, d2]))
                                   (MakeTime (digitsVal [h1, h2]) (digitsVal [n1, n2]) 0 0))"
  shows "dateKeyFromLocalString z
           [y1, y2, y3, y4, CHR ''-'', m1, m2, CHR ''-'', d1, d2, CHR ''T'', h1, h2, CHR '':'', n1, n2]
         = [y1, y2, y3, y4, CHR ''-'', m1, m2, CHR ''-'', d1, d2]"
proof -
  define yy where "yy = digitsVal [y1, y2, y3, y4]"
  define mo where "mo = digitsVal [m1, m2]"
  define dd where "dd = digitsVal [d1, d2]"
  define hh where "hh = digitsVal [h1, h2]"
  define mi where "mi = digitsVal [n1, n2]"
  note nT = dg[THEN isDigit_not_sep(1)]
  note nH = dg[THEN isDigit_not_sep(2)]
  note nC = dg[THEN isDigit_not_sep(3)]
  have sp1: "splitStr CHR ''T''
        [y1, y2, y3, y4, CHR ''-'', m1, m2, CHR ''-'', d1, d2, CHR ''T'', h1, h2, CHR '':'', n1, n2]
      = [[y1, y2, y3, y4, CHR ''-'', m1, m2, CHR ''-'', d1, d2], [h1, h2, CHR '':'', n1, n2]]"
    using nT by simp
  have sp2: "splitStr CHR ''-'' [y1, y2, y3, y4, CHR ''-'', m1, m2, CHR ''-'', d1, d2]
      = [[y1, y2, y3, y4], [m1, m2], [d1, d2]]"
    using nH by simp
  have sp3: "splitStr CHR '':'' [h1, h2, CHR '':'', n1, n2] = [[h1, h2], [n1, n2]]"
    using nC by simp
  have pi: "parseInt10 [y1, y2, y3, y4] = Num yy" "parseInt10 [m1, m2] = Num mo"
           "parseInt10 [d1, d2] = Num dd" "parseInt10 [h1, h2] = Num hh"
           "parseInt10 [n1, n2] = Num mi"
    unfolding yy_def mo_def dd_def hh_def mi_def
    by (rule parseInt10_digits; simp add: dg)+
  have h0: "0 \<le> hh" "0 \<le> mi"
    using dg[THEN digitVal_range] by (simp_all add: hh_def mi_def digitsVal_2)
  have nz: "mo \<noteq> 0" "dd \<noteq> 0" using M D by (simp_all add: mo_def dd_def)
  define t where "t = MakeDate (MakeDay yy (mo - 1) dd) (MakeTime hh mi 0 0)"
  have K': "staysOnDay z t"
    using K by (simp add: t_def yy_def mo_def dd_def hh_def mi_def)
  have mr: "0 \<le> mo - 1" "mo - 1 \<le> 11" using M by (simp_all add: mo_def)
  have dr: "1 \<le> dd" "dd \<le> daysInMonth yy (mo - 1 + 1)"
    using D by (simp_all add: dd_def yy_def mo_def)
  have tr: "0 \<le> MakeTime hh mi 0 0" "MakeTime hh mi 0 0 < msPerDay"
    by (rule MakeTime_range; simp add: h0 H[folded hh_def] N[folded mi_def])+
  have dt: "Day t = MakeDay yy (mo - 1) dd"
    unfolding t_def by (rule Day_MakeDate(1)[OF tr])
  define u where "u = UTC z t"
  have du: "Day (LocalTime z u) = MakeDay yy (mo - 1) dd"
    using staysOnDay_D(2)[OF K'] by (simp add: readBack_def u_def dt)
  have f: "YearFromTime (LocalTime z u) = yy" "MonthFromTime (LocalTime z u) = mo - 1"
          "DateFromTime (LocalTime z u) = dd"
    by (rule fields_on_day[OF mr dr du])+
  have clip: "TimeClip (UTC z (MakeDate (MakeDay yy (mo - 1) dd) (MakeTime hh mi 0 0))) = Num u"
    using staysOnDay_D(1)[OF K'] by (simp add: t_def u_def)
  have fy: "MakeFullYear yy = yy"
    using Y by (simp add: MakeFullYear_def yy_def)
  have parse: "parseLocalDateTime z
        [y1, y2, y3, y4, CHR ''-'', m1, m2, CHR ''-'', d1, d2, CHR ''T'', h1, h2, CHR '':'', n1, n2]
      = DateOf (Num u)"
    using nz
    by (simp add: parseLocalDateTime_def sp1 sp2 sp3 pi Let_def eval_nat_numeral fy clip
                  num_or_zero num_or_nonzero
             del: splitStr.simps num_or.simps)
  have k1: "numToString (Num yy) = [y1, y2, y3, y4]"
    unfolding yy_def by (rule fmt4[OF dg(1-4) Y])
  have k2: "padStart0 2 (numToString (Num mo)) = [m1, m2]"
    unfolding mo_def by (rule fmt2[OF dg(5,6)])
  have k3: "padStart0 2 (numToString (Num dd)) = [d1, d2]"
    unfolding dd_def by (rule fmt2[OF dg(7,8)])
  have "dateKeyLocal z (DateOf (Num u)) = [y1, y2, y3, y4] @ ''-'' @ [m1, m2] @ ''-'' @ [d1, d2]"
    unfolding dateKeyLocal_def Let_def
    by (simp only: getFullYear.simps getMonth.simps getDate.simps f num_add.simps)
       (simp add: k1 k2 k3 del: numToString.simps)
  then show ?thesis
    by (simp add: dateKeyFromLocalString_def parse)
qed


lemma list16:
  assumes "length s = 16"
  obtains a0 a1 a2 a3 a4 a5 a6 a7 a8 a9 a10 a11 a12 a13 a14 a15
  where "s = [a0, a1, a2, a3, a4, a5, a6, a7, a8, a9, a10, a11, a12, a13, a14, a15]"
proof -
  have "\<exists>a0 a1 a2 a3 a4 a5 a6 a7 a8 a9 a10 a11 a12 a13 a14 a15.
          s = [a0, a1, a2, a3, a4, a5, a6, a7, a8, a9, a10, a11, a12, a13, a14, a15]"
    using assms by (simp add: eval_nat_numeral length_Suc_conv) blast
  then show thesis using that by blast
qed

text \<open>
  The day key of a valid string whose year is at least 1000, on a host that keeps the
  local time that the string names on its day.
\<close>

lemma dateKey_valid:
  assumes a: "validLocalDateTime s" "1000 \<le> digitsVal (take 4 s)" "staysOnDay z (localMoment s)"
  shows "dateKeyFromLocalString z s = take 10 s"
proof -
  have "length s = 16" using a(1) by (simp add: validLocalDateTime_def)
  then obtain a0 a1 a2 a3 a4 a5 a6 a7 a8 a9 a10 a11 a12 a13 a14 a15
    where s: "s = [a0, a1, a2, a3, a4, a5, a6, a7, a8, a9, a10, a11, a12, a13, a14, a15]"
    by (rule list16)
  have v: "isDigit a0" "isDigit a1" "isDigit a2" "isDigit a3" "isDigit a5" "isDigit a6"
          "isDigit a8" "isDigit a9" "isDigit a11" "isDigit a12" "isDigit a14" "isDigit a15"
          "a4 = CHR ''-''" "a7 = CHR ''-''" "a10 = CHR ''T''" "a13 = CHR '':''"
          "1000 \<le> digitsVal [a0, a1, a2, a3]"
          "1 \<le> digitsVal [a5, a6]" "digitsVal [a5, a6] \<le> 12"
          "1 \<le> digitsVal [a8, a9]"
          "digitsVal [a8, a9] \<le> daysInMonth (digitsVal [a0, a1, a2, a3]) (digitsVal [a5, a6])"
          "digitsVal [a11, a12] \<le> 23" "digitsVal [a14, a15] \<le> 59"
    using a(1,2) unfolding s validLocalDateTime_def by (simp_all add: Let_def)
  have K: "staysOnDay z (MakeDate (MakeDay (digitsVal [a0, a1, a2, a3]) (digitsVal [a5, a6] - 1)
                                           (digitsVal [a8, a9]))
                                  (MakeTime (digitsVal [a11, a12]) (digitsVal [a14, a15]) 0 0))"
    using a(3) unfolding s localMoment_def by simp
  show ?thesis
    unfolding s v(13-16) using dateKey_explicit[OF v(1-12) v(17-23) K] by simp
qed

lemma sample_strings_valid:
  "validLocalDateTime ''2025-03-01T00:30''" "1000 \<le> digitsVal (take 4 ''2025-03-01T00:30'')"
  "validLocalDateTime ''2025-10-31T23:59''" "1000 \<le> digitsVal (take 4 ''2025-10-31T23:59'')"
  "validLocalDateTime ''2012-04-01T00:30''" "1000 \<le> digitsVal (take 4 ''2012-04-01T00:30'')"
  by code_simp+

lemma havana2012_samples:
  "staysOnDay havana2012 (localMoment ''2012-04-01T00:30'')"
  "staysOnDay havana2012 (localMoment ''2025-03-01T00:30'')"
  "staysOnDay havana2012 (localMoment ''2025-10-31T23:59'')"
  "readBack havana2012 (localMoment ''2012-04-01T00:30'') = localMoment ''2012-04-01T00:30'' + msPerHour"
  by code_simp+

text \<open>
  Claim C1 says that for every valid string \<open>YYYY-MM-DDThh:mm\<close> the day key is the date
  portion of the string, whatever the zone of the host. Four valid strings where it is
  not. On a host in UTC, with a year below 1000: \<open>dateKeyLocal\<close> pads the month and the day
  but writes the year as \<open>String\<close> prints it, and the \<open>Date\<close> constructor reads a year from 0
  to 99 as 1900 + year. On a host with the offsets of Pacific/Apia, which had no
  30 December 2011: the constructor moves 10:00 of that day to 31 December. On a host with
  the offsets of America/Nuuk, where the last hour of 30 March 2024 is skipped: the
  constructor moves 23:30 of that day to 00:30 of 31 March.
\<close>

theorem dateKey_year_below_1000_or_skipped_day:
  "validLocalDateTime ''0999-06-15T10:00'' \<and>
   dateKeyFromLocalString zoneUTC ''0999-06-15T10:00'' = ''999-06-15'' \<and>
   validLocalDateTime ''0050-03-01T00:30'' \<and>
   dateKeyFromLocalString zoneUTC ''0050-03-01T00:30'' = ''1950-03-01'' \<and>
   validLocalDateTime ''2011-12-30T10:00'' \<and>
   dateKeyFromLocalString apia2011 ''2011-12-30T10:00'' = ''2011-12-31'' \<and>
   validLocalDateTime ''2024-03-30T23:30'' \<and>
   dateKeyFromLocalString nuuk2024 ''2024-03-30T23:30'' = ''2024-03-31''"
  by code_simp


text \<open>
  Claim C1, amended. For every valid local date-time string \<open>s\<close> of the form
  \<open>YYYY-MM-DDThh:mm\<close> (an actual calendar date, a valid hour and minute) whose year is at
  least 1000, on every host that keeps the local time that \<open>s\<close> names on its own day (the
  time is inside the range of \<open>Date\<close>, and if a zone transition skips it the host's reading
  of it is on the same day), \<open>dateKeyFromLocalString s\<close> is the first ten characters of \<open>s\<close>,
  whatever the time of day; in particular, on such a host, for the two strings of the
  claim.
\<close>

theorem dateKey_date_portion:
  "(validLocalDateTime s \<and> 1000 \<le> digitsVal (take 4 s) \<and> staysOnDay z (localMoment s)
      \<longrightarrow> dateKeyFromLocalString z s = take 10 s) \<and>
   (staysOnDay z (localMoment ''2025-03-01T00:30'')
      \<longrightarrow> dateKeyFromLocalString z ''2025-03-01T00:30'' = ''2025-03-01'') \<and>
   (staysOnDay z (localMoment ''2025-10-31T23:59'')
      \<longrightarrow> dateKeyFromLocalString z ''2025-10-31T23:59'' = ''2025-10-31'')"
proof (intro conjI impI)
  assume "validLocalDateTime s \<and> 1000 \<le> digitsVal (take 4 s) \<and> staysOnDay z (localMoment s)"
  then show "dateKeyFromLocalString z s = take 10 s"
    using dateKey_valid[of s z] by blast
next
  assume "staysOnDay z (localMoment ''2025-03-01T00:30'')"
  then show "dateKeyFromLocalString z ''2025-03-01T00:30'' = ''2025-03-01''"
    using dateKey_valid[OF sample_strings_valid(1,2)] by simp
next
  assume "staysOnDay z (localMoment ''2025-10-31T23:59'')"
  then show "dateKeyFromLocalString z ''2025-10-31T23:59'' = ''2025-10-31''"
    using dateKey_valid[OF sample_strings_valid(3,4)] by simp
qed

text \<open>
  On a host with the offsets of America/Havana, 00:30 of 1 April 2012 is skipped and read
  as 01:30 of that day: the key is that of 1 April.
\<close>

theorem dateKey_date_portion_witness:
  "validLocalDateTime ''2012-04-01T00:30'' \<and> 1000 \<le> digitsVal (take 4 ''2012-04-01T00:30'') \<and>
   staysOnDay havana2012 (localMoment ''2012-04-01T00:30'') \<and>
   readBack havana2012 (localMoment ''2012-04-01T00:30'')
     = localMoment ''2012-04-01T00:30'' + msPerHour \<and>
   dateKeyFromLocalString havana2012 ''2012-04-01T00:30'' = ''2012-04-01'' \<and>
   staysOnDay havana2012 (localMoment ''2025-03-01T00:30'') \<and>
   dateKeyFromLocalString havana2012 ''2025-03-01T00:30'' = ''2025-03-01'' \<and>
   staysOnDay havana2012 (localMoment ''2025-10-31T23:59'') \<and>
   dateKeyFromLocalString havana2012 ''2025-10-31T23:59'' = ''2025-10-31''"
  using dateKey_date_portion[of "''2012-04-01T00:30''" havana2012]
        sample_strings_valid(5,6) havana2012_samples
  by simp

end
